theory Spec2Isabelle
  imports Main "HOL-Library.AList"
begin

section \<open>Policy compiler: rule expressions and static analysis\<close>

subsection \<open>Rule expressions\<close>

text \<open>
  The abstract syntax of a rule expression, as the policy generator sees it. A literal
  carries its value; an invocation carries the name of the function its reference
  resolves to (\<open>function.ref?.name\<close>, absent when unresolved), whether that declaration
  comes from the standard library (\<open>isFromStdlib\<close>), and its arguments.
\<close>

datatype literal = LBool bool | LNum int | LStr string

datatype expr =
    LiteralExpr literal
  | NullExpr
  | ThisExpr
  | ReferenceExpr string
  | MemberAccessExpr expr string
  | InvocationExpr "string option" bool "expr list"
  | ArrayExpr "expr list"
  | UnaryExpr string expr
  | BinaryExpr string expr expr

text \<open>
  \<open>streamAllContents\<close> of the grammar library yields every node directly or indirectly
  contained in the given node; the node itself is not part of the stream.
\<close>

fun streamAllContents :: "expr \<Rightarrow> expr list"
  and streamAll :: "expr list \<Rightarrow> expr list" where
  "streamAllContents (LiteralExpr v) = []"
| "streamAllContents NullExpr = []"
| "streamAllContents ThisExpr = []"
| "streamAllContents (ReferenceExpr r) = []"
| "streamAllContents (MemberAccessExpr e m) = e # streamAllContents e"
| "streamAllContents (InvocationExpr f s as) = streamAll as"
| "streamAllContents (ArrayExpr es) = streamAll es"
| "streamAllContents (UnaryExpr oper e) = e # streamAllContents e"
| "streamAllContents (BinaryExpr oper l r) =
     l # streamAllContents l @ r # streamAllContents r"
| "streamAll [] = []"
| "streamAll (e # es) = e # streamAllContents e @ streamAll es"

fun isFutureInvocation :: "expr \<Rightarrow> bool" where
  "isFutureInvocation (InvocationExpr f s as) = (f = Some ''future'' \<and> s)"
| "isFutureInvocation e = False"

definition hasFutureReference :: "expr \<Rightarrow> bool" where
  "hasFutureReference e = list_ex isFutureInvocation (streamAllContents e)"

fun visitPolicyExpression :: "expr \<Rightarrow> bool \<Rightarrow> expr option" where
  "visitPolicyExpression (BinaryExpr oper l r) postUpdate =
     (if oper = ''&&'' \<or> oper = ''||'' then
        (case visitPolicyExpression l postUpdate of
           None \<Rightarrow> visitPolicyExpression r postUpdate
         | Some left \<Rightarrow>
             (case visitPolicyExpression r postUpdate of
                None \<Rightarrow> Some left
              | Some right \<Rightarrow> Some (BinaryExpr oper left right)))
      else if postUpdate \<and> \<not> hasFutureReference (BinaryExpr oper l r) then None
      else if \<not> postUpdate \<and> hasFutureReference (BinaryExpr oper l r) then None
      else Some (BinaryExpr oper l r))"
| "visitPolicyExpression (UnaryExpr oper e) postUpdate =
     (if oper = ''!'' then
        (case visitPolicyExpression e postUpdate of
           None \<Rightarrow> None
         | Some operand \<Rightarrow> Some (UnaryExpr oper operand))
      else if postUpdate \<and> \<not> hasFutureReference (UnaryExpr oper e) then None
      else if \<not> postUpdate \<and> hasFutureReference (UnaryExpr oper e) then None
      else Some (UnaryExpr oper e))"
| "visitPolicyExpression e postUpdate =
     (if postUpdate \<and> \<not> hasFutureReference e then None
      else if \<not> postUpdate \<and> hasFutureReference e then None
      else Some e)"

definition processUpdatePolicies :: "expr list \<Rightarrow> bool \<Rightarrow> expr list" where
  "processUpdatePolicies expressions postUpdate =
     List.map_filter (\<lambda>e. visitPolicyExpression e postUpdate) expressions"

subsection \<open>Leaves and operator skeleton of a rule expression\<close>

text \<open>
  A node is an operator node of the split when it is a binary \<open>&&\<close> or \<open>||\<close> or a unary
  \<open>!\<close>; every other expression is a leaf, kept or dropped as a whole.
\<close>

fun isLeaf :: "expr \<Rightarrow> bool" where
  "isLeaf (BinaryExpr oper l r) = (oper \<noteq> ''&&'' \<and> oper \<noteq> ''||'')"
| "isLeaf (UnaryExpr oper e) = (oper \<noteq> ''!'')"
| "isLeaf e = True"

fun leaves :: "expr \<Rightarrow> expr list" where
  "leaves (BinaryExpr oper l r) =
     (if oper = ''&&'' \<or> oper = ''||'' then leaves l @ leaves r else [BinaryExpr oper l r])"
| "leaves (UnaryExpr oper e) = (if oper = ''!'' then leaves e else [UnaryExpr oper e])"
| "leaves e = [e]"

definition leavesOpt :: "expr option \<Rightarrow> expr list" where
  "leavesOpt r = (case r of None \<Rightarrow> [] | Some e \<Rightarrow> leaves e)"

subsection \<open>Static analysis of a model's rules\<close>

datatype PolicyOperationKind = Create | Read | Update | Delete | PostUpdate

fun operationName :: "PolicyOperationKind \<Rightarrow> string" where
  "operationName Create = ''create''"
| "operationName Read = ''read''"
| "operationName Update = ''update''"
| "operationName Delete = ''delete''"
| "operationName PostUpdate = ''postUpdate''"

datatype PolicyKind = Allow | Deny

fun attributeName :: "PolicyKind \<Rightarrow> string" where
  "attributeName Allow = ''@@allow''"
| "attributeName Deny = ''@@deny''"

text \<open>
  A model attribute: the name of the declaration it resolves to (\<open>decl.ref?.name\<close>), the
  string literal of its first argument (the attribute's operations parameter is declared
  as a string; absent when the argument is not a literal), and the expression of its
  second argument.
\<close>

record DataModelAttribute =
  decl :: "string option"
  ops :: "string option"
  rule :: expr

record DataModel =
  modelName :: string
  attributes :: "DataModelAttribute list"

text \<open>\<open>getLiteral\<close> of the development kit: the value of a literal expression.\<close>

fun getLiteral :: "expr \<Rightarrow> literal option" where
  "getLiteral (LiteralExpr v) = Some v"
| "getLiteral e = None"

text \<open>
  \<open>split(',')\<close> and \<open>trim()\<close> of the host language's strings. A string is a sequence of
  code units below 256, and \<open>trim()\<close> removes white space and line terminators at both
  ends: of the code units below 256 these are the tab, the line feed, the vertical tab,
  the form feed, the carriage return, the space and the no-break space (U+00A0). The
  other white space of the host language (U+1680, U+2000 to U+200A, U+2028, U+2029,
  U+202F, U+205F, U+3000, U+FEFF) lies above 255 and is no character of these strings.
\<close>

fun split :: "char \<Rightarrow> string \<Rightarrow> string list" where
  "split c [] = [[]]"
| "split c (x # xs) =
     (if x = c then [] # split c xs
      else (case split c xs of [] \<Rightarrow> [[x]] | y # ys \<Rightarrow> (x # y) # ys))"

definition isWhiteSpace :: "char \<Rightarrow> bool" where
  "isWhiteSpace c =
     (c \<in> set [CHR '' '', CHR 0x09, CHR 0x0A, CHR 0x0B, CHR 0x0C, CHR 0x0D, CHR 0xA0])"

definition trim :: "string \<Rightarrow> string" where
  "trim s = rev (dropWhile isWhiteSpace (rev (dropWhile isWhiteSpace s)))"

definition forOperation ::
  "PolicyOperationKind \<Rightarrow> DataModelAttribute list \<Rightarrow> DataModelAttribute list" where
  "forOperation operation rules =
     filter (\<lambda>r. case ops r of
                   None \<Rightarrow> False
                 | Some s \<Rightarrow>
                     if s = [] then False
                     else if s = ''all'' then True
                     else operationName operation \<in> set (map trim (split CHR '','' s)))
            rules"

definition isConstantTrue :: "DataModelAttribute \<Rightarrow> bool" where
  "isConstantTrue r = (getLiteral (rule r) = Some (LBool True))"

definition toStaticPolicy ::
  "PolicyOperationKind \<Rightarrow> DataModelAttribute list \<Rightarrow> DataModelAttribute list \<Rightarrow> bool option"
  where
  "toStaticPolicy operation allows denies =
     (let filteredDenies = forOperation operation denies in
      if list_ex isConstantTrue filteredDenies then Some False
      else
        let filteredAllows = forOperation operation allows in
        if length filteredAllows = 0 then Some False
        else if length filteredDenies = 0 \<and> list_ex isConstantTrue filteredAllows then Some True
        else None)"

record PolicyAnalysis =
  allows :: "DataModelAttribute list"
  denies :: "DataModelAttribute list"
  create :: "bool option"
  read :: "bool option"
  update :: "bool option"
  delete :: "bool option"
  allowAll :: bool
  denyAll :: bool

definition analyzePolicies :: "DataModel \<Rightarrow> PolicyAnalysis" where
  "analyzePolicies dataModel =
     (let allows = filter (\<lambda>attr. decl attr = Some ''@@allow'') (attributes dataModel);
          denies = filter (\<lambda>attr. decl attr = Some ''@@deny'') (attributes dataModel);
          create = toStaticPolicy Create allows denies;
          read = toStaticPolicy Read allows denies;
          update = toStaticPolicy Update allows denies;
          del = toStaticPolicy Delete allows denies
      in \<lparr> allows = allows, denies = denies, create = create, read = read,
           update = update, delete = del,
           allowAll = (create = Some True \<and> read = Some True \<and> update = Some True
                       \<and> del = Some True),
           denyAll = (create = Some False \<and> read = Some False \<and> update = Some False
                      \<and> del = Some False) \<rparr>)"

text \<open>\<open>policies[kind]\<close>: the analysis has no entry for the post-update phase.\<close>

fun policyOf :: "PolicyAnalysis \<Rightarrow> PolicyOperationKind \<Rightarrow> bool option" where
  "policyOf policies Create = create policies"
| "policyOf policies Read = read policies"
| "policyOf policies Update = update policies"
| "policyOf policies Delete = delete policies"
| "policyOf policies PostUpdate = None"

definition getPolicyExpressions ::
  "DataModel \<Rightarrow> PolicyKind \<Rightarrow> PolicyOperationKind \<Rightarrow> expr list" where
  "getPolicyExpressions model kind operation =
     (let attrs = filter (\<lambda>attr. decl attr = Some (attributeName kind)) (attributes model);
          checkOperation = (if operation = PostUpdate then Update else operation);
          result =
            map rule
              (filter (\<lambda>attr. case ops attr of
                                None \<Rightarrow> False
                              | Some opsValue \<Rightarrow>
                                  if opsValue = [] then False
                                  else
                                    let opers = map trim (split CHR '','' opsValue) in
                                    operationName checkOperation \<in> set opers
                                    \<or> ''all'' \<in> set opers)
                 attrs)
      in if operation = Update then processUpdatePolicies result False
         else if operation = PostUpdate then processUpdatePolicies result True
         else result)"

text \<open>
  An entry of the generated policy table: a constant, or the generated guard function
  (its name, and the allow and deny expressions its body is written from).
\<close>

datatype GuardEntry = Static bool | GuardFunction string "expr list" "expr list"


text \<open>The body of the loop of \<open>generateQueryGuardForModel\<close>, for one operation kind.\<close>

definition queryGuardForKind :: "DataModel \<Rightarrow> PolicyOperationKind \<Rightarrow> GuardEntry" where
  "queryGuardForKind model kind =
     (case policyOf (analyzePolicies model) kind of
        Some b \<Rightarrow> Static b
      | None \<Rightarrow>
          let denies = getPolicyExpressions model Deny kind;
              allows = getPolicyExpressions model Allow kind
          in if kind = Update \<and> length allows = 0 then
               (if length (getPolicyExpressions model Allow PostUpdate) = 0 then Static False
                else Static True)
             else if kind = PostUpdate \<and> length allows = 0 \<and> length denies = 0 then Static True
             else GuardFunction (modelName model @ ''_'' @ operationName kind) allows denies)"

text \<open>
  The table of one model; the list of operation kinds (\<open>ALL_OPERATION_KINDS\<close>) is a
  constant of the plugin utilities.
\<close>

definition generateQueryGuardForModel ::
  "PolicyOperationKind list \<Rightarrow> DataModel \<Rightarrow> (PolicyOperationKind \<rightharpoonup> GuardEntry)" where
  "generateQueryGuardForModel allOperationKinds model =
     fold (\<lambda>kind result. result(kind \<mapsto> queryGuardForKind model kind))
          allOperationKinds Map.empty"

subsection \<open>Example rules and models\<close>

definition ownerIsCaller :: expr where
  "ownerIsCaller = BinaryExpr ''=='' (ReferenceExpr ''owner'') (InvocationExpr (Some ''auth'') True [])"

definition futurePublished :: expr where
  "futurePublished =
     BinaryExpr ''=='' (MemberAccessExpr (InvocationExpr (Some ''future'') True []) ''published'')
       (LiteralExpr (LBool True))"



definition listedAllModel :: DataModel where
  "listedAllModel =
     \<lparr> modelName = ''Post'',
       attributes = [\<lparr> decl = Some ''@@deny'', ops = Some ''read, all'',
                       rule = LiteralExpr (LBool True) \<rparr>,
                     \<lparr> decl = Some ''@@allow'', ops = Some ''create'',
                       rule = LiteralExpr (LBool True) \<rparr>] \<rparr>"

subsection \<open>Operation strings on which the two tests of applicability agree\<close>

text \<open>
  The static analysis (\<open>forOperation\<close>) takes a rule as applying to an operation when its
  operation string is \<open>all\<close> or lists the operation; the guard generator
  (\<open>getPolicyExpressions\<close>) when the list of its operation string holds the operation or
  \<open>all\<close>. The two agree on every rule of a model whose operation strings name \<open>all\<close> only
  as the whole string.
\<close>

definition namesAllAlone :: "DataModel \<Rightarrow> bool" where
  "namesAllAlone model =
     (\<forall>attr\<in>set (attributes model).
        case ops attr of
          None \<Rightarrow> True
        | Some s \<Rightarrow> ''all'' \<in> set (map trim (split CHR '','' s)) \<longrightarrow> s = ''all'')"

section \<open>Runtime enforcement: values, store and policy table\<close>

subsection \<open>Values\<close>

text \<open>
  Plain data: what the store returns and receives, what a guard function builds, the
  caller identity. No such value is shared with the heap of argument objects.
\<close>

datatype json =
    Undefined | Null | Bool bool | Num int | Str string
  | Arr "json list"
  | Obj "(string \<times> json) list"

text \<open>
  Values the engine handles: plain data, objects built on the spot (which nobody else
  holds), and references to the objects of the heap. The heap is a list of objects and
  arrays; an address is an index, and allocation appends.
\<close>

datatype jval =
    JUndefined | JNull | JBool bool | JNum int | JStr string
  | JArr "jval list"
  | JObj "(string \<times> jval) list"
  | JRef nat

fun embed :: "json \<Rightarrow> jval" where
  "embed Undefined = JUndefined"
| "embed Null = JNull"
| "embed (Bool b) = JBool b"
| "embed (Num n) = JNum n"
| "embed (Str s) = JStr s"
| "embed (Arr xs) = JArr (map embed xs)"
| "embed (Obj kvs) = JObj (map (\<lambda>(k, v). (k, embed v)) kvs)"

text \<open>Truthiness, \<open>typeof c === 'object' && !!c\<close>, and the nullish test of \<open>??\<close>.\<close>

fun truthy :: "jval \<Rightarrow> bool" where
  "truthy JUndefined = False"
| "truthy JNull = False"
| "truthy (JBool b) = b"
| "truthy (JNum n) = (n \<noteq> 0)"
| "truthy (JStr s) = (s \<noteq> [])"
| "truthy (JArr xs) = True"
| "truthy (JObj kvs) = True"
| "truthy (JRef a) = True"

fun isObject :: "jval \<Rightarrow> bool" where
  "isObject (JArr xs) = True"
| "isObject (JObj kvs) = True"
| "isObject (JRef a) = True"
| "isObject v = False"

fun nullish :: "jval \<Rightarrow> bool" where
  "nullish JUndefined = True"
| "nullish JNull = True"
| "nullish v = False"

definition coalesce :: "jval \<Rightarrow> jval \<Rightarrow> jval" where
  "coalesce a b = (if nullish a then b else a)"

fun truthyJson :: "json \<Rightarrow> bool" where
  "truthyJson Undefined = False"
| "truthyJson Null = False"
| "truthyJson (Bool b) = b"
| "truthyJson (Num n) = (n \<noteq> 0)"
| "truthyJson (Str s) = (s \<noteq> [])"
| "truthyJson (Arr xs) = True"
| "truthyJson (Obj kvs) = True"

text \<open>
  Optional member access on plain data (\<open>entityData?.id\<close>, \<open>entityData?.[field]\<close>): the
  value under the key, \<open>undefined\<close> when the key or the object is missing.
\<close>

fun member :: "json \<Rightarrow> string \<Rightarrow> json" where
  "member (Obj kvs) k = (case map_of kvs k of None \<Rightarrow> Undefined | Some v \<Rightarrow> v)"
| "member v k = Undefined"

subsection \<open>Errors\<close>

text \<open>
  The extra text of a policy denial is one of two templates:
  \<open>n entities failed policy check\<close> and \<open>entity failed policy check\<close>.
\<close>

datatype DeniedExtra = EntitiesFailed nat | EntityFailed

datatype error =
    PolicyDenied string PolicyOperationKind "DeniedExtra option"
  | NotFound string
  | UnknownError string
  | TypeError
  | StoreError string
  | OutOfFuel

definition deniedByPolicy :: "string \<Rightarrow> PolicyOperationKind \<Rightarrow> DeniedExtra option \<Rightarrow> error" where
  "deniedByPolicy model operation extra = PolicyDenied model operation extra"

definition notFound :: "string \<Rightarrow> error" where
  "notFound model = NotFound model"

definition unknownError :: "string \<Rightarrow> error" where
  "unknownError message = UnknownError message"

subsection \<open>Conjunction of query conditions\<close>

definition and_conditions :: "jval list \<Rightarrow> jval" where
  "and_conditions conditions =
     (if JBool False \<in> set conditions then JObj [(''id'', JObj [(''in'', JArr [])])]
      else
        let filtered = filter isObject conditions in
        if length filtered = 0 then JUndefined
        else if length filtered = 1 then hd filtered
        else JObj [(''AND'', JArr filtered)])"

definition or_conditions :: "jval list \<Rightarrow> jval" where
  "or_conditions conditions =
     (if JBool True \<in> set conditions then JObj [(''id'', JObj [(''notIn'', JArr [])])]
      else
        let filtered = filter isObject conditions in
        if length filtered = 0 then JUndefined
        else if length filtered = 1 then hd filtered
        else JObj [(''OR'', JArr filtered)])"

subsection \<open>Store, policy table and metadata\<close>

text \<open>
  The store client is a collaborator: counting and finding are functions of the store's
  state, of the model and of the query, and may fail. When checks that were started
  together fail, the one that fails first in time is decided by the time the store takes to
  answer each of them: \<open>firstRejected\<close> picks it among their errors. A guard provider is a
  constant or a function of the caller identity and of the value before the update.
\<close>

record 's DbClient =
  count :: "'s \<Rightarrow> string \<Rightarrow> json \<Rightarrow> error + nat"
  findMany :: "'s \<Rightarrow> string \<Rightarrow> json \<Rightarrow> error + json list"
  firstRejected :: "error list \<Rightarrow> error"

datatype PolicyProvider = ProviderConst bool | ProviderFunc "json \<Rightarrow> json \<Rightarrow> json"

type_synonym PolicyDef = "string \<Rightarrow> (PolicyOperationKind \<Rightarrow> PolicyProvider option) option"

record FieldInfo =
  fieldName :: string
  fieldType :: string
  isDataModel :: bool
  isArray :: bool
  backLink :: "string option"

type_synonym ModelMeta = "string \<Rightarrow> string \<Rightarrow> FieldInfo option"

text \<open>
  Modelled from the spec: \<open>resolveField\<close> of the model-metadata module is not part of the
  sources at hand. The metadata gives, for a model and a field name, the descriptor of
  the field (whether it is a relation, its target model, its cardinality, its back-link),
  or nothing.
\<close>

definition resolveField :: "ModelMeta \<Rightarrow> string \<Rightarrow> string \<Rightarrow> FieldInfo option" where
  "resolveField modelMeta model field = modelMeta model field"

record 's PolicyUtil =
  db :: "'s DbClient"
  modelMeta :: ModelMeta
  policy :: PolicyDef
  user :: json
  camelCase :: "string \<Rightarrow> string"

definition getAuthGuard ::
  "'s PolicyUtil \<Rightarrow> string \<Rightarrow> PolicyOperationKind \<Rightarrow> json \<Rightarrow> error + jval" where
  "getAuthGuard pu model operation preValue =
     (case policy pu (camelCase pu model) of
        None \<Rightarrow> Inl (unknownError (''unable to load policy guard for '' @ model))
      | Some guard \<Rightarrow>
          (case guard operation of
             Some (ProviderConst b) \<Rightarrow> Inr (JBool b)
           | None \<Rightarrow>
               Inl (unknownError (''zenstack: unable to load authorization guard for '' @ model))
           | Some (ProviderFunc provider) \<Rightarrow> Inr (embed (provider (user pu) preValue))))"

subsection \<open>Heap of argument objects\<close>

text \<open>
  The own properties of an object value, read through the heap when the value is a
  reference. Arrays and primitive values have no named properties in this model.
\<close>

definition fieldsOf :: "jval list \<Rightarrow> jval \<Rightarrow> (string \<times> jval) list" where
  "fieldsOf h v =
     (case v of
        JObj kvs \<Rightarrow> kvs
      | JRef a \<Rightarrow> (if a < length h then (case h ! a of JObj kvs \<Rightarrow> kvs | _ \<Rightarrow> []) else [])
      | _ \<Rightarrow> [])"

definition getProp :: "jval list \<Rightarrow> jval \<Rightarrow> string \<Rightarrow> jval" where
  "getProp h v k = (case map_of (fieldsOf h v) k of None \<Rightarrow> JUndefined | Some x \<Rightarrow> x)"

text \<open>
  Assignment \<open>target[k] = x\<close>. Reading or writing a property of \<open>undefined\<close> or \<open>null\<close>
  raises a type error, and so does creating a property on a primitive value (the modules
  are strict code). An object built on the spot is held by nobody else, so writing to it
  leaves the heap as it is.
\<close>

definition setProp :: "jval list \<Rightarrow> jval \<Rightarrow> string \<Rightarrow> jval \<Rightarrow> error + jval list" where
  "setProp h target k x =
     (case target of
        JRef a \<Rightarrow>
          (if a < length h then
             (case h ! a of
                JObj kvs \<Rightarrow> Inr (h[a := JObj (AList.update k x kvs)])
              | _ \<Rightarrow> Inr h)
           else Inr h)
      | JObj kvs \<Rightarrow> Inr h
      | JArr xs \<Rightarrow> Inr h
      | _ \<Rightarrow> Inl TypeError)"

text \<open>
  What the store receives of a query object: its plain data, references followed through
  the heap. The number of references followed on one path is bounded by the size of the
  heap; a structure with a reference cycle has no plain data.
\<close>

fun reify :: "nat \<Rightarrow> jval list \<Rightarrow> jval \<Rightarrow> json option"
  and reifyList :: "nat \<Rightarrow> jval list \<Rightarrow> jval list \<Rightarrow> json list option"
  and reifyFields :: "nat \<Rightarrow> jval list \<Rightarrow> (string \<times> jval) list \<Rightarrow> (string \<times> json) list option"
  where
  "reify n h JUndefined = Some Undefined"
| "reify n h JNull = Some Null"
| "reify n h (JBool b) = Some (Bool b)"
| "reify n h (JNum i) = Some (Num i)"
| "reify n h (JStr s) = Some (Str s)"
| "reify n h (JArr xs) = map_option Arr (reifyList n h xs)"
| "reify n h (JObj kvs) = map_option Obj (reifyFields n h kvs)"
| "reify 0 h (JRef a) = None"
| "reify (Suc n) h (JRef a) = (if a < length h then reify n h (h ! a) else None)"
| "reifyList n h [] = Some []"
| "reifyList n h (x # xs) =
     (case reify n h x of
        None \<Rightarrow> None
      | Some y \<Rightarrow> (case reifyList n h xs of None \<Rightarrow> None | Some ys \<Rightarrow> Some (y # ys)))"
| "reifyFields n h [] = Some []"
| "reifyFields n h (kv # kvs) =
     (case reify n h (snd kv) of
        None \<Rightarrow> None
      | Some y \<Rightarrow>
          (case reifyFields n h kvs of None \<Rightarrow> None | Some ys \<Rightarrow> Some ((fst kv, y) # ys)))"

definition serialise :: "jval list \<Rightarrow> jval \<Rightarrow> json option" where
  "serialise h v = reify (length h) h v"

subsection \<open>State of a call\<close>

text \<open>
  A call runs against the state of the store, the heap of argument objects, and the list
  of the calls issued to the store so far. An action returns an error or a value, and the
  state after it.
\<close>

datatype dbcall = CountCall string json | FindManyCall string json | WriteCall string

record 's world =
  store :: 's
  heap :: "jval list"
  issued :: "dbcall list"

type_synonym ('a, 's) action = "'s world \<Rightarrow> (error + 'a) \<times> 's world"

definition ret :: "'a \<Rightarrow> ('a, 's) action" where
  "ret x w = (Inr x, w)"

definition throw :: "error \<Rightarrow> ('a, 's) action" where
  "throw e w = (Inl e, w)"

definition lift :: "error + 'a \<Rightarrow> ('a, 's) action" where
  "lift r w = (r, w)"

definition bind :: "('a, 's) action \<Rightarrow> ('a \<Rightarrow> ('b, 's) action) \<Rightarrow> ('b, 's) action" where
  "bind m f w = (case m w of (Inl e, w') \<Rightarrow> (Inl e, w') | (Inr x, w') \<Rightarrow> f x w')"

definition dbCount :: "'s PolicyUtil \<Rightarrow> string \<Rightarrow> jval \<Rightarrow> (nat, 's) action" where
  "dbCount pu model args w =
     (case serialise (heap w) args of
        None \<Rightarrow> (Inl OutOfFuel, w)
      | Some q \<Rightarrow>
          (count (db pu) (store w) model q, w\<lparr>issued := issued w @ [CountCall model q]\<rparr>))"

definition dbFindMany :: "'s PolicyUtil \<Rightarrow> string \<Rightarrow> jval \<Rightarrow> (json list, 's) action" where
  "dbFindMany pu model args w =
     (case serialise (heap w) args of
        None \<Rightarrow> (Inl OutOfFuel, w)
      | Some q \<Rightarrow>
          (findMany (db pu) (store w) model q,
           w\<lparr>issued := issued w @ [FindManyCall model q]\<rparr>))"

text \<open>
  Checks that are started together and awaited jointly (\<open>Promise.all\<close>): every check runs
  to its end whatever becomes of the others, so \<open>gather\<close> collects the error of each check
  that fails. The whole fails when some check fails, with the error of the check that
  fails first in time, which the client's \<open>firstRejected\<close> picks among the errors
  collected. The store calls are recorded check by check: these checks change neither the
  store nor the heap, so each sees the same state in any order, and the order in time of
  the calls of different checks is the store's; the state afterwards holds the calls of
  all the checks.
\<close>

fun gather :: "('a \<Rightarrow> (unit, 's) action) \<Rightarrow> 'a list \<Rightarrow> 's world \<Rightarrow> error list \<times> 's world" where
  "gather f [] w = ([], w)"
| "gather f (x # xs) w =
     (case f x w of
        (r, w') \<Rightarrow>
          (case gather f xs w' of
             (errors, w'') \<Rightarrow> ((case r of Inl e \<Rightarrow> e # errors | Inr u \<Rightarrow> errors), w'')))"

definition promiseAll ::
  "'s PolicyUtil \<Rightarrow> ('a \<Rightarrow> (unit, 's) action) \<Rightarrow> 'a list \<Rightarrow> (unit, 's) action" where
  "promiseAll pu f xs w =
     (case gather f xs w of
        (errors, w') \<Rightarrow>
          if errors = [] then (Inr (), w')
          else
            let e = firstRejected (db pu) errors
            in (Inl (if e \<in> set errors then e else hd errors), w'))"

subsection \<open>The count-comparison check\<close>

text \<open>
  The client handle the check receives (the plain client, or the transaction's) reads the
  current state of the store. Logging is not part of the model.
\<close>

definition checkPolicyForFilter ::
  "'s PolicyUtil \<Rightarrow> string \<Rightarrow> jval \<Rightarrow> PolicyOperationKind \<Rightarrow> (unit, 's) action" where
  "checkPolicyForFilter pu model fltr operation =
     bind (dbCount pu model (JObj [(''where'', fltr)])) (\<lambda>cnt.
     bind (lift (getAuthGuard pu model operation Undefined)) (\<lambda>guard.
     let guardedQuery = JObj [(''where'', and_conditions [fltr, guard])] in
     bind (dbCount pu model guardedQuery) (\<lambda>guardedCount.
     if guardedCount < cnt then
       throw (deniedByPolicy model operation (Some (EntitiesFailed (cnt - guardedCount))))
     else ret ())))"

definition checkPostUpdate ::
  "'s PolicyUtil \<Rightarrow> string \<Rightarrow> json \<Rightarrow> json \<Rightarrow> (unit, 's) action" where
  "checkPostUpdate pu model ident preValue =
     bind (lift (getAuthGuard pu model PostUpdate preValue)) (\<lambda>guard.
     let guardedQuery =
           JObj [(''where'', and_conditions [JObj [(''id'', embed ident)], guard])] in
     bind (dbCount pu model guardedQuery) (\<lambda>guardedCount.
     if guardedCount = 0 then throw (deniedByPolicy model PostUpdate (Some EntityFailed))
     else ret ()))"

definition isToOneRelation :: "FieldInfo option \<Rightarrow> bool" where
  "isToOneRelation field =
     (case field of None \<Rightarrow> False | Some f \<Rightarrow> isDataModel f \<and> \<not> isArray f)"

subsection \<open>Post-processing of read results\<close>

text \<open>
  Modelled from the spec: \<open>getModelFields\<close> of the runtime utilities is not part of the
  sources at hand. It lists the fields projected by a selection object: its keys, without
  the engine's own auxiliary fields (the call-scoped marker and the guard field).
\<close>

definition TRANSACTION_FIELD_NAME :: string where
  "TRANSACTION_FIELD_NAME = ''zenstack_transaction''"

definition GUARD_FIELD_NAME :: string where
  "GUARD_FIELD_NAME = ''zenstack_guard''"

definition getModelFields :: "jval list \<Rightarrow> jval \<Rightarrow> string list" where
  "getModelFields h data =
     filter (\<lambda>f. f \<noteq> TRANSACTION_FIELD_NAME \<and> f \<noteq> GUARD_FIELD_NAME) (map fst (fieldsOf h data))"

lemma size_map_of: "map_of kvs k = Some v \<Longrightarrow> size v < size (Obj kvs)"
  by (induction kvs) (auto split: if_splits)

lemma size_member: "member e f \<noteq> Undefined \<Longrightarrow> size (member e f) < size e"
  by (cases e) (auto split: option.splits dest: size_map_of)

lemma size_member_id:
  "truthyJson (member (member e f) k) \<Longrightarrow> size (member e f) < size e"
  by (rule size_member) auto

text \<open>
  The checks of one result row run one after the other (the loop over its fields awaits
  each check), and the first that fails is the error of the row.
\<close>

function postProcessForRead ::
  "'s PolicyUtil \<Rightarrow> json \<Rightarrow> string \<Rightarrow> jval \<Rightarrow> PolicyOperationKind \<Rightarrow> (unit, 's) action"
  and postProcessFields ::
  "'s PolicyUtil \<Rightarrow> json \<Rightarrow> string \<Rightarrow> jval \<Rightarrow> PolicyOperationKind \<Rightarrow> string list
     \<Rightarrow> (unit, 's) action"
  where
  "postProcessForRead pu entityData model args operation w =
     (if \<not> truthyJson (member entityData ''id'') then (Inr (), w)
      else if nullish args then (Inl TypeError, w)
      else
        let injectTarget =
              coalesce (getProp (heap w) args ''select'') (getProp (heap w) args ''include'')
        in if \<not> truthy injectTarget then (Inr (), w)
           else postProcessFields pu entityData model injectTarget operation
                  (getModelFields (heap w) injectTarget) w)"
| "postProcessFields pu entityData model injectTarget operation [] w = (Inr (), w)"
| "postProcessFields pu entityData model injectTarget operation (field # rest) w =
     (case resolveField (modelMeta pu) model field of
        None \<Rightarrow> postProcessFields pu entityData model injectTarget operation rest w
      | Some fieldInfo \<Rightarrow>
          if \<not> isDataModel fieldInfo \<or> isArray fieldInfo
             \<or> \<not> truthyJson (member (member entityData field) ''id'')
          then postProcessFields pu entityData model injectTarget operation rest w
          else
            (case checkPolicyForFilter pu (fieldType fieldInfo)
                    (JObj [(''id'', embed (member (member entityData field) ''id''))])
                    operation w of
               (Inl e, w') \<Rightarrow> (Inl e, w')
             | (Inr u, w') \<Rightarrow>
                 (case postProcessForRead pu (member entityData field) (fieldType fieldInfo)
                         (getProp (heap w') injectTarget field) operation w' of
                    (Inl e, w'') \<Rightarrow> (Inl e, w'')
                  | (Inr u', w'') \<Rightarrow>
                      postProcessFields pu entityData model injectTarget operation rest w'')))"
  by pat_completeness auto
termination
  by (relation "measures [
        (\<lambda>x. case x of Inl (pu, e, m, a, oper, w) \<Rightarrow> size e | Inr (pu, e, m, t, oper, fs, w) \<Rightarrow> size e),
        (\<lambda>x. case x of Inl (pu, e, m, a, oper, w) \<Rightarrow> Suc 0 | Inr (pu, e, m, t, oper, fs, w) \<Rightarrow> 0),
        (\<lambda>x. case x of Inl (pu, e, m, a, oper, w) \<Rightarrow> 0 | Inr (pu, e, m, t, oper, fs, w) \<Rightarrow> length fs)]")
     (auto dest: size_member_id)

declare postProcessForRead.simps [simp del]

subsection \<open>Reading with checks\<close>

text \<open>
  The deep copy of the copying library: every object and array of the copy is a new
  object, so the copy shares nothing with the original. The copy is taken of the plain
  data of the value; a value with a reference cycle is outside this model.
\<close>

fun allocTree :: "json \<Rightarrow> jval list \<Rightarrow> jval \<times> jval list"
  and allocList :: "json list \<Rightarrow> jval list \<Rightarrow> jval list \<times> jval list"
  and allocFields :: "(string \<times> json) list \<Rightarrow> jval list \<Rightarrow> (string \<times> jval) list \<times> jval list"
  where
  "allocTree Undefined h = (JUndefined, h)"
| "allocTree Null h = (JNull, h)"
| "allocTree (Bool b) h = (JBool b, h)"
| "allocTree (Num i) h = (JNum i, h)"
| "allocTree (Str s) h = (JStr s, h)"
| "allocTree (Arr xs) h =
     (case allocList xs h of (ys, h') \<Rightarrow> (JRef (length h'), h' @ [JArr ys]))"
| "allocTree (Obj kvs) h =
     (case allocFields kvs h of (kvs', h') \<Rightarrow> (JRef (length h'), h' @ [JObj kvs']))"
| "allocList [] h = ([], h)"
| "allocList (x # xs) h =
     (case allocTree x h of (y, h1) \<Rightarrow>
        (case allocList xs h1 of (ys, h2) \<Rightarrow> (y # ys, h2)))"
| "allocFields [] h = ([], h)"
| "allocFields (kv # kvs) h =
     (case allocTree (snd kv) h of (y, h1) \<Rightarrow>
        (case allocFields kvs h1 of (ys, h2) \<Rightarrow> ((fst kv, y) # ys, h2)))"

definition deepcopy :: "jval list \<Rightarrow> jval \<Rightarrow> (jval \<times> jval list) option" where
  "deepcopy h v = (case serialise h v of None \<Rightarrow> None | Some t \<Rightarrow> Some (allocTree t h))"

definition clone :: "jval \<Rightarrow> (jval, 's) action" where
  "clone v w =
     (if truthy v then
        (case deepcopy (heap w) v of
           None \<Rightarrow> (Inl OutOfFuel, w)
         | Some (c, h') \<Rightarrow> (Inr c, w\<lparr>heap := h'\<rparr>))
      else (Inr (JRef (length (heap w))), w\<lparr>heap := heap w @ [JObj []]\<rparr>))"

definition injectAuthGuard ::
  "'s PolicyUtil \<Rightarrow> jval \<Rightarrow> string \<Rightarrow> PolicyOperationKind \<Rightarrow> (unit, 's) action" where
  "injectAuthGuard pu args model operation w =
     (case getAuthGuard pu model operation Undefined of
        Inl e \<Rightarrow> (Inl e, w)
      | Inr guard \<Rightarrow>
          if nullish args then (Inl TypeError, w)
          else
            (case setProp (heap w) args ''where''
                    (and_conditions [getProp (heap w) args ''where'', guard]) of
               Inl e \<Rightarrow> (Inl e, w)
             | Inr h' \<Rightarrow> (Inr (), w\<lparr>heap := h'\<rparr>)))"

text \<open>\<open>typeof v === 'object'\<close>, which holds of \<open>null\<close> too.\<close>

definition typeofObject :: "jval \<Rightarrow> bool" where
  "typeofObject v = (isObject v \<or> v = JNull)"

text \<open>
  The treatment of one relation field: the injection into a to-many relation, or the
  forcing of the identifier of a to-one relation.
\<close>

definition injectField ::
  "'s PolicyUtil \<Rightarrow> jval \<Rightarrow> string \<Rightarrow> FieldInfo \<Rightarrow> (unit, 's) action" where
  "injectField pu injectTarget field fieldInfo w =
     (if isArray fieldInfo then
        (case (if \<not> typeofObject (getProp (heap w) injectTarget field)
               then setProp (heap w @ [JObj []]) injectTarget field (JRef (length (heap w)))
               else Inr (heap w)) of
           Inl e \<Rightarrow> (Inl e, w)
         | Inr h1 \<Rightarrow>
             (case getAuthGuard pu (fieldType fieldInfo) Read Undefined of
                Inl e \<Rightarrow> (Inl e, w\<lparr>heap := h1\<rparr>)
              | Inr guard \<Rightarrow>
                  (case setProp h1 (getProp h1 injectTarget field) ''where''
                          (and_conditions [getProp h1 injectTarget ''where'', guard]) of
                     Inl e \<Rightarrow> (Inl e, w\<lparr>heap := h1\<rparr>)
                   | Inr h2 \<Rightarrow> (Inr (), w\<lparr>heap := h2\<rparr>))))
      else
        (let sel = getProp (heap w) (getProp (heap w) injectTarget field) ''select'' in
         if truthy sel \<and> getProp (heap w) sel ''id'' \<noteq> JBool True then
           (case setProp (heap w) sel ''id'' (JBool True) of
              Inl e \<Rightarrow> (Inl e, w)
            | Inr h1 \<Rightarrow> (Inr (), w\<lparr>heap := h1\<rparr>))
         else (Inr (), w)))"

text \<open>
  The recursion follows the selection objects of the heap; its depth is bounded by a
  fuel, and running out of fuel stands for a recursion that does not return.
\<close>

fun injectNestedReadConditions ::
  "nat \<Rightarrow> 's PolicyUtil \<Rightarrow> string \<Rightarrow> jval \<Rightarrow> (unit, 's) action"
  and injectFields ::
  "nat \<Rightarrow> 's PolicyUtil \<Rightarrow> string \<Rightarrow> jval \<Rightarrow> string list \<Rightarrow> (unit, 's) action"
  where
  "injectNestedReadConditions 0 pu model args w = (Inl OutOfFuel, w)"
| "injectNestedReadConditions (Suc n) pu model args w =
     (if nullish args then (Inl TypeError, w)
      else
        let injectTarget =
              coalesce (getProp (heap w) args ''select'') (getProp (heap w) args ''include'')
        in if \<not> truthy injectTarget then (Inr (), w)
           else injectFields n pu model injectTarget (getModelFields (heap w) injectTarget) w)"
| "injectFields n pu model injectTarget [] w = (Inr (), w)"
| "injectFields n pu model injectTarget (field # rest) w =
     (case resolveField (modelMeta pu) model field of
        None \<Rightarrow> injectFields n pu model injectTarget rest w
      | Some fieldInfo \<Rightarrow>
          if \<not> isDataModel fieldInfo then injectFields n pu model injectTarget rest w
          else
            (case injectField pu injectTarget field fieldInfo w of
               (Inl e, w1) \<Rightarrow> (Inl e, w1)
             | (Inr u, w1) \<Rightarrow>
                 (case injectNestedReadConditions n pu (fieldType fieldInfo)
                         (getProp (heap w1) injectTarget field) w1 of
                    (Inl e, w2) \<Rightarrow> (Inl e, w2)
                  | (Inr u', w2) \<Rightarrow> injectFields n pu model injectTarget rest w2)))"

text \<open>The rows of a result are post-processed together.\<close>

definition postProcessAll ::
  "'s PolicyUtil \<Rightarrow> json list \<Rightarrow> string \<Rightarrow> jval \<Rightarrow> PolicyOperationKind \<Rightarrow> (unit, 's) action"
  where
  "postProcessAll pu items model args operation =
     promiseAll pu (\<lambda>item. postProcessForRead pu item model args operation) items"

definition readWithCheck ::
  "nat \<Rightarrow> 's PolicyUtil \<Rightarrow> string \<Rightarrow> jval \<Rightarrow> (json list, 's) action" where
  "readWithCheck fuel pu model args0 =
     bind (clone args0) (\<lambda>args.
     bind (injectAuthGuard pu args model Read) (\<lambda>u.
     bind (injectNestedReadConditions fuel pu model args) (\<lambda>u.
     bind (dbFindMany pu model args) (\<lambda>result.
     bind (postProcessAll pu result model args Read) (\<lambda>u.
     ret result)))))"

subsection \<open>Writing with checks\<close>

text \<open>
  The context the traversal of a nested write hands to a callback: the parent argument
  node, the relation field of the current operation, and the path of field and filter
  pairs from the root down to it. The ledger of a write call: the models with created rows
  to post-check (in the order they were added), and per model the rows to post-check
  after the update, by identifier, with their values before the update.
\<close>

record VisitorContext =
  parent :: jval
  contextField :: "FieldInfo option"
  nestingPath :: "(FieldInfo option \<times> jval) list"

record Ledger =
  createdModels :: "string list"
  updatedModels :: "(string \<times> (json \<times> json) list) list"


text \<open>
  The reversed query. \<open>{ ...where }\<close> is a new object with the own properties of the
  filter. The loop walks the path from its last segment to its first; \<open>result\<close> is the
  object built so far and \<open>currQuery\<close> the object nested last, kept here as the path of
  keys that leads to it from \<open>result\<close>.
\<close>

definition spread :: "jval list \<Rightarrow> jval \<Rightarrow> jval" where
  "spread h v = JObj (fieldsOf h v)"

fun assignAt :: "string list \<Rightarrow> string \<Rightarrow> jval \<Rightarrow> jval \<Rightarrow> jval" where
  "assignAt [] k x obj =
     (case obj of JObj kvs \<Rightarrow> JObj (AList.update k x kvs) | _ \<Rightarrow> obj)"
| "assignAt (p # ps) k x obj =
     (case obj of
        JObj kvs \<Rightarrow>
          (case map_of kvs p of
             Some child \<Rightarrow> JObj (AList.update p (assignAt ps k x child) kvs)
           | None \<Rightarrow> obj)
      | _ \<Rightarrow> obj)"

fun reversedLoop ::
  "jval list \<Rightarrow> (FieldInfo option \<times> jval) list \<Rightarrow> jval option \<Rightarrow> string list
     \<Rightarrow> FieldInfo option \<Rightarrow> error + jval option" where
  "reversedLoop h [] result currQuery currField = Inr result"
| "reversedLoop h (seg # segs) result currQuery currField =
     (case result of
        None \<Rightarrow> reversedLoop h segs (Some (spread h (snd seg))) [] (fst seg)
      | Some r \<Rightarrow>
          (case currField of
             None \<Rightarrow> Inl (unknownError ''missing field in nested path'')
           | Some cf \<Rightarrow>
               if backLink cf = None \<or> backLink cf = Some [] then
                 Inl (unknownError (''field '' @ fieldType cf @ ''.'' @ fieldName cf
                                    @ '' doesn't have a backLink''))
               else
                 reversedLoop h segs
                   (Some (assignAt currQuery (the (backLink cf)) (spread h (snd seg)) r))
                   (currQuery @ [the (backLink cf)]) (fst seg)))"

definition buildReversedQuery :: "jval list \<Rightarrow> VisitorContext \<Rightarrow> error + jval" where
  "buildReversedQuery h context =
     (case reversedLoop h (rev (nestingPath context)) None [] None of
        Inl e \<Rightarrow> Inl e
      | Inr None \<Rightarrow> Inr JUndefined
      | Inr (Some r) \<Rightarrow> Inr r)"


















text \<open>
  The transaction is a capability of the store, taken as the specification describes it
  (transactional execution with rollback on exception): when the body raises, the store is
  as it was before the transaction. The objects of the heap and the record of issued calls
  are not part of the store. The write action is supplied by the caller, and so is the
  identifier of the transaction (a fresh identifier in the source).
\<close>

definition transaction :: "('a, 's) action \<Rightarrow> ('a, 's) action" where
  "transaction body w =
     (case body w of
        (Inl e, w') \<Rightarrow> (Inl e, w'\<lparr>store := store w\<rparr>)
      | (Inr x, w') \<Rightarrow> (Inr x, w'))"

type_synonym 's WriteAction = "string \<Rightarrow> json \<Rightarrow> 's \<Rightarrow> (error + json) \<times> 's"

definition dbWrite :: "'s WriteAction \<Rightarrow> string \<Rightarrow> jval \<Rightarrow> (json, 's) action" where
  "dbWrite writeAction model args w =
     (case serialise (heap w) args of
        None \<Rightarrow> (Inl OutOfFuel, w)
      | Some q \<Rightarrow>
          (case writeAction model q (store w) of
             (r, s') \<Rightarrow> (r, w\<lparr>store := s', issued := issued w @ [WriteCall model]\<rparr>)))"

text \<open>
  The post-checks of the created rows, one for each model, are started together; so are
  the post-checks of the updated rows, one for each row.
\<close>

definition checkCreated :: "'s PolicyUtil \<Rightarrow> string \<Rightarrow> string list \<Rightarrow> (unit, 's) action" where
  "checkCreated pu transactionId models =
     promiseAll pu
       (\<lambda>model.
          checkPolicyForFilter pu model
            (JObj [(TRANSACTION_FIELD_NAME, JStr (transactionId @ '':create''))]) Create)
       models"

definition checkUpdated ::
  "'s PolicyUtil \<Rightarrow> (string \<times> (json \<times> json) list) list \<Rightarrow> (unit, 's) action" where
  "checkUpdated pu updated =
     promiseAll pu
       (\<lambda>entry. checkPostUpdate pu (fst entry) (fst (snd entry)) (snd (snd entry)))
       (concat (map (\<lambda>modelEntry. map (\<lambda>e. (fst modelEntry, e)) (snd modelEntry)) updated))"

definition postChecks :: "'s PolicyUtil \<Rightarrow> string \<Rightarrow> Ledger \<Rightarrow> (unit, 's) action" where
  "postChecks pu transactionId ledger =
     bind (if length (createdModels ledger) > 0
           then checkCreated pu transactionId (createdModels ledger) else ret ()) (\<lambda>u.
     if length (updatedModels ledger) > 0 then checkUpdated pu (updatedModels ledger)
     else ret ())"

definition finishWrite ::
  "'s PolicyUtil \<Rightarrow> string \<Rightarrow> string \<Rightarrow> jval \<Rightarrow> 's WriteAction \<Rightarrow> Ledger \<Rightarrow> (json, 's) action"
  where
  "finishWrite pu transactionId model args writeAction ledger =
     (if length (createdModels ledger) = 0 \<and> length (updatedModels ledger) = 0 then
        dbWrite writeAction model args
      else
        transaction
          (bind (dbWrite writeAction model args) (\<lambda>result.
           bind (postChecks pu transactionId ledger) (\<lambda>u. ret result))))"






subsection \<open>The reversed query as a nested filter\<close>

text \<open>
  The fold of a path, taken from its innermost segment to the root: the innermost
  where-filter, with the fold of the rest of the path nested under the back-link of the
  innermost relation field.
\<close>

definition hasBackLink :: "FieldInfo option \<Rightarrow> bool" where
  "hasBackLink f = (case f of None \<Rightarrow> False
                    | Some cf \<Rightarrow> backLink cf \<noteq> None \<and> backLink cf \<noteq> Some [])"

definition backLinkOf :: "FieldInfo option \<Rightarrow> string" where
  "backLinkOf f = the (backLink (the f))"

fun nestedFilter :: "jval list \<Rightarrow> (FieldInfo option \<times> jval) list \<Rightarrow> jval" where
  "nestedFilter h [] = JUndefined"
| "nestedFilter h [seg] = spread h (snd seg)"
| "nestedFilter h (seg # up # segs) =
     JObj (AList.update (backLinkOf (fst seg)) (nestedFilter h (up # segs))
             (fieldsOf h (snd seg)))"

text \<open>
  The object at a path of keys, its replacement, and the effect of the rest of the loop on
  the object nested last.
\<close>

fun plug :: "string list \<Rightarrow> jval \<Rightarrow> jval \<Rightarrow> jval" where
  "plug [] v r = v"
| "plug (p # ps) v r =
     (case r of
        JObj kvs \<Rightarrow>
          (case map_of kvs p of
             Some c \<Rightarrow> JObj (AList.update p (plug ps v c) kvs)
           | None \<Rightarrow> r)
      | _ \<Rightarrow> r)"

fun getAt :: "string list \<Rightarrow> jval \<Rightarrow> jval" where
  "getAt [] r = r"
| "getAt (p # ps) r =
     (case r of
        JObj kvs \<Rightarrow> (case map_of kvs p of Some c \<Rightarrow> getAt ps c | None \<Rightarrow> JUndefined)
      | _ \<Rightarrow> JUndefined)"

fun validAt :: "string list \<Rightarrow> jval \<Rightarrow> bool" where
  "validAt [] r = (case r of JObj kvs \<Rightarrow> True | _ \<Rightarrow> False)"
| "validAt (p # ps) r =
     (case r of
        JObj kvs \<Rightarrow> (case map_of kvs p of Some c \<Rightarrow> validAt ps c | None \<Rightarrow> False)
      | _ \<Rightarrow> False)"

definition setKey :: "string \<Rightarrow> jval \<Rightarrow> jval \<Rightarrow> jval" where
  "setKey k x obj = (case obj of JObj kvs \<Rightarrow> JObj (AList.update k x kvs) | _ \<Rightarrow> obj)"

fun extend :: "jval list \<Rightarrow> FieldInfo option \<Rightarrow> jval \<Rightarrow> (FieldInfo option \<times> jval) list \<Rightarrow> jval"
  where
  "extend h cf q [] = q"
| "extend h cf q (seg # segs) =
     setKey (backLinkOf cf) (extend h (fst seg) (spread h (snd seg)) segs) q"

fun linked :: "FieldInfo option \<Rightarrow> (FieldInfo option \<times> jval) list \<Rightarrow> bool" where
  "linked cf [] = True"
| "linked cf (seg # segs) = (hasBackLink cf \<and> linked (fst seg) segs)"

subsection \<open>Objects that exist before a call\<close>

text \<open>
  A value holds only new references when every reference in it is an address at or above
  a given bound. A heap is framed by an earlier heap when it starts with the earlier heap
  unchanged and its later objects hold only references to later objects.
\<close>

fun refsGe :: "nat \<Rightarrow> jval \<Rightarrow> bool"
  and refsGeList :: "nat \<Rightarrow> jval list \<Rightarrow> bool"
  and refsGeFields :: "nat \<Rightarrow> (string \<times> jval) list \<Rightarrow> bool"
  where
  "refsGe n (JRef a) = (n \<le> a)"
| "refsGe n (JArr xs) = refsGeList n xs"
| "refsGe n (JObj kvs) = refsGeFields n kvs"
| "refsGe n JUndefined = True"
| "refsGe n JNull = True"
| "refsGe n (JBool b) = True"
| "refsGe n (JNum i) = True"
| "refsGe n (JStr s) = True"
| "refsGeList n [] = True"
| "refsGeList n (x # xs) = (refsGe n x \<and> refsGeList n xs)"
| "refsGeFields n [] = True"
| "refsGeFields n (kv # kvs) = (refsGe n (snd kv) \<and> refsGeFields n kvs)"

definition framed :: "jval list \<Rightarrow> jval list \<Rightarrow> bool" where
  "framed h0 h =
     (take (length h0) h = h0
      \<and> (\<forall>a. length h0 \<le> a \<and> a < length h \<longrightarrow> refsGe (length h0) (h ! a)))"

subsection \<open>Steps that do not reach the store\<close>



subsection \<open>A small store and policy\<close>

text \<open>
  The evaluation of a filter is a capability of the store (composite predicates over
  field and relation comparisons). The store used here is a list of rows, each with its
  model. A row matches a filter object when it satisfies
  every key: \<open>AND\<close> asks for all the filters of a list, a key with an object asks the
  related row embedded under that key to match the nested filter, and any other key asks
  for equality. A scalar never matches an object, so the filter \<open>{ id: { in: [] } }\<close>
  matches no row. Finding returns the matching rows, projected on the selected keys.
\<close>

fun rowMatches :: "json \<Rightarrow> json \<Rightarrow> bool"
  and allMatch :: "json \<Rightarrow> json list \<Rightarrow> bool"
  and keysMatch :: "json \<Rightarrow> (string \<times> json) list \<Rightarrow> bool"
  where
  "rowMatches row (Obj kvs) = keysMatch row kvs"
| "rowMatches row (Arr fs) = allMatch row fs"
| "rowMatches row Undefined = True"
| "rowMatches row Null = True"
| "rowMatches row (Bool b) = b"
| "rowMatches row (Num n) = False"
| "rowMatches row (Str s) = False"
| "allMatch row [] = True"
| "allMatch row (f # fs) = (rowMatches row f \<and> allMatch row fs)"
| "keysMatch row [] = True"
| "keysMatch row (kv # kvs) =
     ((if fst kv = ''AND'' then rowMatches row (snd kv)
       else (case snd kv of
               Obj cs \<Rightarrow> (case member row (fst kv) of Obj r \<Rightarrow> keysMatch (Obj r) cs | _ \<Rightarrow> False)
             | c \<Rightarrow> member row (fst kv) = c))
      \<and> keysMatch row kvs)"

definition project :: "json \<Rightarrow> json \<Rightarrow> json" where
  "project sel row =
     (case sel of
        Obj s \<Rightarrow> (case row of
                    Obj kvs \<Rightarrow> Obj (filter (\<lambda>kv. truthyJson (member sel (fst kv))) kvs)
                  | _ \<Rightarrow> row)
      | _ \<Rightarrow> row)"

definition exampleClient :: "(string \<times> json) list DbClient" where
  "exampleClient =
     \<lparr> count = (\<lambda>st model q.
         Inr (length (filter (\<lambda>r. fst r = model \<and> rowMatches (snd r) (member q ''where'')) st))),
       findMany = (\<lambda>st model q.
         Inr (map (\<lambda>r. project (member q ''select'') (snd r))
                (filter (\<lambda>r. fst r = model \<and> rowMatches (snd r) (member q ''where'')) st))),
       firstRejected = hd \<rparr>"

definition exampleMeta :: ModelMeta where
  "exampleMeta model field =
     (if model = ''List'' \<and> field = ''todos'' then
        Some \<lparr> fieldName = ''todos'', fieldType = ''Todo'', isDataModel = True,
               isArray = True, backLink = Some ''list'' \<rparr>
      else if model = ''Todo'' \<and> field = ''owner'' then
        Some \<lparr> fieldName = ''owner'', fieldType = ''User'', isDataModel = True,
               isArray = False, backLink = Some ''todos'' \<rparr>
      else if model = ''User'' \<and> field = ''lists'' then
        Some \<lparr> fieldName = ''lists'', fieldType = ''List'', isDataModel = True,
               isArray = True, backLink = Some ''owner'' \<rparr>
      else if model = ''Todo'' \<and> field = ''list'' then
        Some \<lparr> fieldName = ''list'', fieldType = ''List'', isDataModel = True,
               isArray = False, backLink = Some ''todos'' \<rparr>
      else None)"

definition examplePolicy :: PolicyDef where
  "examplePolicy key =
     (if key = ''user'' then
        Some (\<lambda>operation. Some (if operation = Read
                                 then ProviderFunc (\<lambda>u p. Obj [(''banned'', Bool False)])
                                 else ProviderConst True))
      else if key = ''todo'' then
        Some (\<lambda>operation. Some (if operation = Read
                                 then ProviderFunc (\<lambda>u p. Obj [(''done'', Bool False)])
                                 else if operation = Create
                                 then ProviderFunc (\<lambda>u p. Obj [(''ownerId'', member u ''id'')])
                                 else ProviderConst True))
      else if key = ''list'' then Some (\<lambda>operation. Some (ProviderConst True))
      else if key = ''secret'' then Some (\<lambda>operation. Some (ProviderConst False))
      else None)"

definition exampleCamelCase :: "string \<Rightarrow> string" where
  "exampleCamelCase s =
     (if s = ''User'' then ''user'' else if s = ''Todo'' then ''todo''
      else if s = ''List'' then ''list'' else if s = ''Secret'' then ''secret'' else s)"

definition exampleUtil :: "(string \<times> json) list PolicyUtil" where
  "exampleUtil =
     \<lparr> db = exampleClient, modelMeta = exampleMeta, policy = examplePolicy,
       user = Obj [(''id'', Num 1)], camelCase = exampleCamelCase \<rparr>"

definition bannedOwner :: json where
  "bannedOwner = Obj [(''id'', Num 2), (''banned'', Bool True)]"

definition exampleStore :: "(string \<times> json) list" where
  "exampleStore =
     [(''User'', Obj [(''id'', Num 1), (''banned'', Bool False)]),
      (''User'', bannedOwner),
      (''Todo'', Obj [(''id'', Num 10), (''title'', Str ''tea''), (''done'', Bool False),
                      (''ownerId'', Num 2), (''owner'', bannedOwner)]),
      (''List'', Obj [(''id'', Num 1),
                      (''todos'', Arr [Obj [(''id'', Num 10), (''owner'', bannedOwner)]])]),
      (''Secret'', Obj [(''id'', Num 7)])]"

definition exampleWorld :: "jval list \<Rightarrow> (string \<times> json) list world" where
  "exampleWorld h = \<lparr> store = exampleStore, heap = h, issued = [] \<rparr>"

definition selectTitleOwner :: "jval list" where
  "selectTitleOwner =
     [JObj [(''title'', JBool True), (''owner'', JBool True)],
      JObj [(''select'', JRef 0)]]"

definition selectTitleOwnerArgs :: jval where
  "selectTitleOwnerArgs =
     JObj [(''select'', JObj [(''title'', JBool True), (''owner'', JBool True)])]"

definition nestedWhereArgs :: jval where
  "nestedWhereArgs =
     JObj [(''include'',
            JObj [(''todos'', JObj [(''where'', JObj [(''done'', JBool True)])])])]"

definition nestedWhereListsArgs :: jval where
  "nestedWhereListsArgs =
     JObj [(''include'',
            JObj [(''lists'', JObj [(''where'', JObj [(''name'', JStr ''home'')])])])]"

definition includeTodosOwnerArgs :: jval where
  "includeTodosOwnerArgs =
     JObj [(''include'',
            JObj [(''todos'', JObj [(''include'', JObj [(''owner'', JBool True)])])])]"

definition includeOwnerArgs :: jval where
  "includeOwnerArgs = JObj [(''include'', JObj [(''owner'', JBool True)])]"

subsection \<open>The reversed query and the rows it identifies\<close>

text \<open>
  The fold of a path whose where-filters are plain data: \<open>nestedFilter\<close> on values that
  hold no reference.
\<close>

definition objFields :: "json \<Rightarrow> (string \<times> json) list" where
  "objFields w = (case w of Obj kvs \<Rightarrow> kvs | _ \<Rightarrow> [])"

fun nestedJson :: "(FieldInfo option \<times> json) list \<Rightarrow> json" where
  "nestedJson [] = Undefined"
| "nestedJson [seg] = Obj (objFields (snd seg))"
| "nestedJson (seg # up # segs) =
     Obj (AList.update (backLinkOf (fst seg)) (nestedJson (up # segs)) (objFields (snd seg)))"

text \<open>
  What a filter means is the store's. The store holds a table of rows for each model and
  resolves a relation field of a row to the rows related through it (one row at most for
  a single-valued relation). A row satisfies a filter when it satisfies each of its keys:
  a key that is no relation field asks for that value of the row; a single-valued
  relation field with a nested filter asks that the related row satisfies the nested
  filter; a list-valued relation field is filtered through a quantifier (\<open>some\<close>,
  \<open>every\<close>, \<open>none\<close>) over the related rows, and a nested filter put directly under it
  holds of no row.
\<close>

type_synonym Relations = "string \<Rightarrow> json \<Rightarrow> string \<Rightarrow> json list"

type_synonym Tables = "string \<Rightarrow> json list"

fun satisfies :: "ModelMeta \<Rightarrow> Relations \<Rightarrow> string \<Rightarrow> json \<Rightarrow> (string \<times> json) list \<Rightarrow> bool" where
  "satisfies meta rel model row [] = True"
| "satisfies meta rel model row (kv # kvs) =
     ((case resolveField meta model (fst kv) of
         None \<Rightarrow> member row (fst kv) = snd kv
       | Some f \<Rightarrow>
           if isDataModel f then
             (case snd kv of
                Obj cs \<Rightarrow>
                  if isArray f then
                    (case cs of
                       [(q, Obj cs')] \<Rightarrow>
                         if q = ''some'' then
                           list_ex (\<lambda>t. satisfies meta rel (fieldType f) t cs')
                             (rel model row (fst kv))
                         else if q = ''every'' then
                           list_all (\<lambda>t. satisfies meta rel (fieldType f) t cs')
                             (rel model row (fst kv))
                         else if q = ''none'' then
                           \<not> list_ex (\<lambda>t. satisfies meta rel (fieldType f) t cs')
                                (rel model row (fst kv))
                         else False
                     | _ \<Rightarrow> False)
                  else
                    list_ex (\<lambda>t. satisfies meta rel (fieldType f) t cs) (rel model row (fst kv))
              | c \<Rightarrow> False)
           else member row (fst kv) = snd kv)
      \<and> satisfies meta rel model row kvs)"

text \<open>
  The model of a segment of a path: the root model for the root segment, the type of the
  relation field otherwise.
\<close>

definition segModel :: "string \<Rightarrow> FieldInfo option \<times> json \<Rightarrow> string" where
  "segModel root seg = (case fst seg of None \<Rightarrow> root | Some f \<Rightarrow> fieldType f)"

text \<open>
  The nested entities reachable from the root under the filters of a path, in the words
  of the specification; the path is given from its innermost segment to the root. The
  rows reachable at the root are the rows of the root model that satisfy the root's
  where-clause; the rows reachable at a segment below are the rows related, through the
  relation field of the segment, to a row reachable at the segment above, that satisfy the
  where-filter of the segment.
\<close>

fun reachable ::
  "ModelMeta \<Rightarrow> Relations \<Rightarrow> Tables \<Rightarrow> string \<Rightarrow> (FieldInfo option \<times> json) list \<Rightarrow> json list"
  where
  "reachable meta rel table root [] = []"
| "reachable meta rel table root [seg] =
     filter (\<lambda>a. satisfies meta rel root a (objFields (snd seg))) (table root)"
| "reachable meta rel table root (seg # up # segs) =
     (case fst seg of
        None \<Rightarrow> []
      | Some f \<Rightarrow>
          filter (\<lambda>c. satisfies meta rel (fieldType f) c (objFields (snd seg)))
            (concat (map (\<lambda>a. rel (segModel root up) a (fieldName f))
                       (reachable meta rel table root (up # segs)))))"

text \<open>
  A path fits the metadata and the store when the root segment has no field and, for
  each segment below the root: its relation field has a back-link, a single-valued
  relation field of the related model that leads back to the model of the segment above;
  its where-filter has no relation field as a key; the store resolves the relation field
  and the back-link to rows of the tables of their types; and the back-link is the inverse
  of the relation field.
\<close>

fun consistent ::
  "ModelMeta \<Rightarrow> Relations \<Rightarrow> Tables \<Rightarrow> string \<Rightarrow> (FieldInfo option \<times> json) list \<Rightarrow> bool"
  where
  "consistent meta rel table root [] = False"
| "consistent meta rel table root [seg] = (fst seg = None)"
| "consistent meta rel table root (seg # up # segs) =
     ((case fst seg of
         None \<Rightarrow> False
       | Some f \<Rightarrow>
           (case backLink f of
              None \<Rightarrow> False
            | Some bl \<Rightarrow>
                bl \<noteq> []
                \<and> (case resolveField meta (fieldType f) bl of
                     None \<Rightarrow> False
                   | Some g \<Rightarrow> isDataModel g \<and> \<not> isArray g \<and> fieldType g = segModel root up)
                \<and> (\<forall>k\<in>set (map fst (objFields (snd seg))).
                      case resolveField meta (fieldType f) k of
                        None \<Rightarrow> True
                      | Some g \<Rightarrow> \<not> isDataModel g)
                \<and> (\<forall>a\<in>set (table (segModel root up)).
                      set (rel (segModel root up) a (fieldName f)) \<subseteq> set (table (fieldType f)))
                \<and> (\<forall>c\<in>set (table (fieldType f)).
                      set (rel (fieldType f) c bl) \<subseteq> set (table (segModel root up))
                      \<and> (\<forall>a\<in>set (table (segModel root up)).
                            (c \<in> set (rel (segModel root up) a (fieldName f)))
                            = (a \<in> set (rel (fieldType f) c bl))))))
      \<and> consistent meta rel table root (up # segs))"

definition embedSegment :: "FieldInfo option \<times> json \<Rightarrow> FieldInfo option \<times> jval" where
  "embedSegment s = (fst s, embed (snd s))"

subsection \<open>Example writes and paths\<close>

definition exampleWriteAction :: "(string \<times> json) list WriteAction" where
  "exampleWriteAction model q st = (Inr (member q ''data''), st @ [(model, member q ''data'')])"




definition createTodoArgs :: jval where
  "createTodoArgs =
     JObj [(''data'', JObj [(''id'', JNum 11), (''ownerId'', JNum 2),
                            (''zenstack_transaction'', JStr ''tx1:create'')])]"

definition createTodoLedger :: Ledger where
  "createTodoLedger = \<lparr> createdModels = [''Todo''], updatedModels = [] \<rparr>"

definition fieldB :: FieldInfo where
  "fieldB = \<lparr> fieldName = ''b'', fieldType = ''B'', isDataModel = True, isArray = False,
              backLink = Some ''a'' \<rparr>"

definition fieldC :: FieldInfo where
  "fieldC = \<lparr> fieldName = ''c'', fieldType = ''C'', isDataModel = True, isArray = False,
              backLink = Some ''b'' \<rparr>"

definition commentPath :: "(FieldInfo option \<times> json) list" where
  "commentPath =
     [(None, Obj [(''id'', Str ''aId'')]), (Some fieldB, Undefined), (Some fieldC, Undefined)]"

definition commentContext :: VisitorContext where
  "commentContext =
     \<lparr> parent = JUndefined, contextField = Some fieldC,
       nestingPath = map embedSegment commentPath \<rparr>"

text \<open>
  A store for the path of the example above (models \<open>A\<close>, \<open>B\<close> and \<open>C\<close>, related one to
  one), and for a model \<open>Post\<close> whose relation field \<open>author\<close> leads to one \<open>User\<close>, the
  back-link \<open>posts\<close> of \<open>User\<close> being a list.
\<close>

definition fieldA :: FieldInfo where
  "fieldA = \<lparr> fieldName = ''a'', fieldType = ''A'', isDataModel = True, isArray = False,
              backLink = Some ''b'' \<rparr>"

definition fieldBofC :: FieldInfo where
  "fieldBofC = \<lparr> fieldName = ''b'', fieldType = ''B'', isDataModel = True, isArray = False,
                 backLink = Some ''c'' \<rparr>"

definition authorField :: FieldInfo where
  "authorField = \<lparr> fieldName = ''author'', fieldType = ''User'', isDataModel = True,
                   isArray = False, backLink = Some ''posts'' \<rparr>"

definition postsField :: FieldInfo where
  "postsField = \<lparr> fieldName = ''posts'', fieldType = ''Post'', isDataModel = True,
                  isArray = True, backLink = Some ''author'' \<rparr>"

definition linkMeta :: ModelMeta where
  "linkMeta model field =
     (if model = ''A'' \<and> field = ''b'' then Some fieldB
      else if model = ''B'' \<and> field = ''c'' then Some fieldC
      else if model = ''B'' \<and> field = ''a'' then Some fieldA
      else if model = ''C'' \<and> field = ''b'' then Some fieldBofC
      else if model = ''Post'' \<and> field = ''author'' then Some authorField
      else if model = ''User'' \<and> field = ''posts'' then Some postsField
      else None)"

definition rowA1 :: json where "rowA1 = Obj [(''id'', Str ''aId'')]"
definition rowA2 :: json where "rowA2 = Obj [(''id'', Str ''a2'')]"
definition rowB1 :: json where "rowB1 = Obj [(''id'', Str ''b1'')]"
definition rowB2 :: json where "rowB2 = Obj [(''id'', Str ''b2'')]"
definition rowC1 :: json where "rowC1 = Obj [(''id'', Str ''c1''), (''value'', Num 0)]"
definition rowC2 :: json where "rowC2 = Obj [(''id'', Str ''c2''), (''value'', Num 0)]"
definition post1 :: json where "post1 = Obj [(''id'', Num 1), (''title'', Str ''tea'')]"
definition user2 :: json where "user2 = Obj [(''id'', Num 2)]"

definition linkTable :: Tables where
  "linkTable model =
     (if model = ''A'' then [rowA1, rowA2]
      else if model = ''B'' then [rowB1, rowB2]
      else if model = ''C'' then [rowC1, rowC2]
      else if model = ''Post'' then [post1]
      else if model = ''User'' then [user2]
      else [])"

definition links :: "((string \<times> json \<times> string) \<times> json) list" where
  "links =
     [((''A'', Str ''aId'', ''b''), rowB1), ((''A'', Str ''a2'', ''b''), rowB2),
      ((''B'', Str ''b1'', ''a''), rowA1), ((''B'', Str ''b2'', ''a''), rowA2),
      ((''B'', Str ''b1'', ''c''), rowC1), ((''B'', Str ''b2'', ''c''), rowC2),
      ((''C'', Str ''c1'', ''b''), rowB1), ((''C'', Str ''c2'', ''b''), rowB2),
      ((''Post'', Num 1, ''author''), user2), ((''User'', Num 2, ''posts''), post1)]"

definition linkRel :: Relations where
  "linkRel model row field =
     map snd (filter (\<lambda>l. fst l = (model, member row ''id'', field)) links)"

definition authorPath :: "(FieldInfo option \<times> json) list" where
  "authorPath = [(None, Obj [(''id'', Num 1)]), (Some authorField, Undefined)]"

definition authorContext :: VisitorContext where
  "authorContext =
     \<lparr> parent = JUndefined, contextField = Some authorField,
       nestingPath = map embedSegment authorPath \<rparr>"

section \<open>Properties of the policy compiler\<close>

lemma leaves_isLeaf: "isLeaf e \<Longrightarrow> leaves e = [e]"
  by (cases e) auto

lemma visit_leaf: "isLeaf e \<Longrightarrow> visitPolicyExpression e p = (if hasFutureReference e = p then Some e else None)"
  by (cases e) auto

lemma leaves_visit: "leavesOpt (visitPolicyExpression e p) = filter (\<lambda>x. hasFutureReference x = p) (leaves e)"
  by (induction e p rule: visitPolicyExpression.induct) (auto simp: leavesOpt_def split: option.splits)


text \<open>
  C6. The before/after split recurses through the operators \<open>&&\<close>, \<open>||\<close> and \<open>!\<close> and
  keeps their structure: a binary node with both sides present is rebuilt with the same
  operator, a binary node missing one side degenerates to the remaining side, a negation
  whose operand reduces to nothing is dropped. Every leaf goes to exactly one side, the
  after side exactly when it has a reference to \<open>future()\<close>: the leaves of the after half
  are the leaves with such a reference, in order, and the leaves of the before half are
  the others.
\<close>

theorem visitPolicyExpression_split:
  "(oper = ''&&'' \<or> oper = ''||'' \<longrightarrow>
      visitPolicyExpression (BinaryExpr oper l r) p =
        (case visitPolicyExpression l p of
           None \<Rightarrow> visitPolicyExpression r p
         | Some left \<Rightarrow>
             (case visitPolicyExpression r p of
                None \<Rightarrow> Some left
              | Some right \<Rightarrow> Some (BinaryExpr oper left right))))
   \<and> visitPolicyExpression (UnaryExpr ''!'' e) p
       = map_option (UnaryExpr ''!'') (visitPolicyExpression e p)
   \<and> (isLeaf e \<longrightarrow>
        visitPolicyExpression e True = (if hasFutureReference e then Some e else None)
        \<and> visitPolicyExpression e False = (if hasFutureReference e then None else Some e))
   \<and> leavesOpt (visitPolicyExpression e True) = filter hasFutureReference (leaves e)
   \<and> leavesOpt (visitPolicyExpression e False)
       = filter (\<lambda>x. \<not> hasFutureReference x) (leaves e)"
proof -
  have un: "visitPolicyExpression (UnaryExpr ''!'' e) p
       = map_option (UnaryExpr ''!'') (visitPolicyExpression e p)"
    by (simp split: option.splits)
  have t: "leavesOpt (visitPolicyExpression e True) = filter hasFutureReference (leaves e)"
    using leaves_visit [of e True] by simp
  have f: "leavesOpt (visitPolicyExpression e False)
       = filter (\<lambda>x. \<not> hasFutureReference x) (leaves e)"
    using leaves_visit [of e False] by simp
  show ?thesis
    using un t f by (simp add: visit_leaf)
qed

theorem visitPolicyExpression_split_witness:
  "visitPolicyExpression (BinaryExpr ''&&'' ownerIsCaller (UnaryExpr ''!'' futurePublished)) True
     = Some (UnaryExpr ''!'' futurePublished)
   \<and> visitPolicyExpression (UnaryExpr ''!'' futurePublished) True
       = Some (UnaryExpr ''!'' futurePublished)
   \<and> isLeaf futurePublished
   \<and> visitPolicyExpression futurePublished True = Some futurePublished
   \<and> visitPolicyExpression futurePublished False = None"
  using visitPolicyExpression_split
          [of "''&&''" ownerIsCaller "UnaryExpr ''!'' futurePublished" True futurePublished]
  by (simp add: ownerIsCaller_def futurePublished_def hasFutureReference_def)

















text \<open>
  Outside such models the two filters differ. A rule with the operation string
  \<open>read, all\<close> is applied to create by the guard generator and not by the static
  analysis: with a deny rule of that string that is the constant true and an allow rule
  for create that is the constant true, the entry for create is the constant true.
\<close>

lemma listed_all_not_applied:
  "\<not> namesAllAlone listedAllModel
   \<and> forOperation Create (denies (analyzePolicies listedAllModel)) = []
   \<and> getPolicyExpressions listedAllModel Deny Create = [LiteralExpr (LBool True)]
   \<and> queryGuardForKind listedAllModel Create = Static True"
  by (simp add: listedAllModel_def analyzePolicies_def forOperation_def
        isConstantTrue_def toStaticPolicy_def queryGuardForKind_def getPolicyExpressions_def
        namesAllAlone_def trim_def isWhiteSpace_def Let_def)

section \<open>Properties of the runtime enforcement\<close>

lemmas example_defs =
  exampleUtil_def exampleClient_def exampleMeta_def examplePolicy_def exampleCamelCase_def
  exampleStore_def exampleWorld_def bannedOwner_def

lemma checkPolicyForFilter_result:
  assumes g: "getAuthGuard pu model operation Undefined = Inr G"
    and n: "fst (dbCount pu model (JObj [(''where'', F)]) w) = Inr n"
    and k: "fst (dbCount pu model (JObj [(''where'', and_conditions [F, G])]) w) = Inr k"
  shows "fst (checkPolicyForFilter pu model F operation w) =
           (if k < n then Inl (PolicyDenied model operation (Some (EntitiesFailed (n - k))))
            else Inr ())"
proof -
  have st: "\<And>w' n. dbCount pu model (JObj [(''where'', F)]) w = (Inr n, w') \<Longrightarrow> heap w' = heap w \<and> store w' = store w"
    by (auto simp: dbCount_def split: option.splits)
  have ind: "\<And>w' a. heap w' = heap w \<Longrightarrow> store w' = store w \<Longrightarrow>
   fst (dbCount pu model a w') = fst (dbCount pu model a w)"
    by (simp add: dbCount_def split: option.splits)
  obtain w1 where w1: "dbCount pu model (JObj [(''where'', F)]) w = (Inr n, w1)"
    using n by (cases "dbCount pu model (JObj [(''where'', F)]) w") auto
  then have s1: "heap w1 = heap w \<and> store w1 = store w" by (rule st)
  have "fst (dbCount pu model (JObj [(''where'', and_conditions [F, G])]) w1) = Inr k"
    using k s1 ind by metis
  then obtain w2 where
    w2: "dbCount pu model (JObj [(''where'', and_conditions [F, G])]) w1 = (Inr k, w2)"
    by (cases "dbCount pu model (JObj [(''where'', and_conditions [F, G])]) w1") auto
  show ?thesis
    by (simp add: checkPolicyForFilter_def bind_def lift_def throw_def ret_def
          deniedByPolicy_def w1 w2 g)
qed

text \<open>
  C1. With the guard obtained for the operation, and the store answering \<open>n\<close> for the
  filter and \<open>k\<close> for the conjunction of the filter and the guard: the check passes when
  \<open>n = k\<close>; when \<open>k < n\<close> it raises a policy denial whose rejected count is \<open>n - k\<close>; and,
  the conjunction never counting more rows than the filter alone, it passes exactly when
  \<open>n = k\<close>.
\<close>

theorem checkPolicyForFilter_count_comparison:
  assumes "getAuthGuard pu model operation Undefined = Inr G"
    and "fst (dbCount pu model (JObj [(''where'', F)]) w) = Inr n"
    and "fst (dbCount pu model (JObj [(''where'', and_conditions [F, G])]) w) = Inr k"
  shows "(n = k \<longrightarrow> fst (checkPolicyForFilter pu model F operation w) = Inr ())
       \<and> (k < n \<longrightarrow> fst (checkPolicyForFilter pu model F operation w)
                      = Inl (PolicyDenied model operation (Some (EntitiesFailed (n - k)))))
       \<and> (k \<le> n \<longrightarrow> (fst (checkPolicyForFilter pu model F operation w) = Inr () \<longleftrightarrow> n = k))"
  using checkPolicyForFilter_result [OF assms] by auto

theorem checkPolicyForFilter_count_comparison_witness:
  "getAuthGuard exampleUtil ''User'' Read Undefined = Inr (JObj [(''banned'', JBool False)])
   \<and> fst (dbCount exampleUtil ''User'' (JObj [(''where'', JObj [(''id'', JNum 2)])])
             (exampleWorld [])) = Inr 1
   \<and> fst (dbCount exampleUtil ''User''
             (JObj [(''where'', and_conditions [JObj [(''id'', JNum 2)],
                                                JObj [(''banned'', JBool False)]])])
             (exampleWorld [])) = Inr 0
   \<and> fst (checkPolicyForFilter exampleUtil ''User'' (JObj [(''id'', JNum 2)]) Read
             (exampleWorld []))
       = Inl (PolicyDenied ''User'' Read (Some (EntitiesFailed 1)))
   \<and> fst (dbCount exampleUtil ''User'' (JObj [(''where'', JObj [(''id'', JNum 1)])])
             (exampleWorld [])) = Inr 1
   \<and> fst (dbCount exampleUtil ''User''
             (JObj [(''where'', and_conditions [JObj [(''id'', JNum 1)],
                                                JObj [(''banned'', JBool False)]])])
             (exampleWorld [])) = Inr 1
   \<and> fst (checkPolicyForFilter exampleUtil ''User'' (JObj [(''id'', JNum 1)]) Read
             (exampleWorld []))
       = Inr ()"
proof -
  have g: "getAuthGuard exampleUtil ''User'' Read Undefined = Inr (JObj [(''banned'', JBool False)])"
    by (simp add: getAuthGuard_def example_defs)
  have n: "fst (dbCount exampleUtil ''User'' (JObj [(''where'', JObj [(''id'', JNum 2)])])
             (exampleWorld [])) = Inr 1"
    by (simp add: dbCount_def serialise_def example_defs)
  have k: "fst (dbCount exampleUtil ''User''
             (JObj [(''where'', and_conditions [JObj [(''id'', JNum 2)],
                                                JObj [(''banned'', JBool False)]])])
             (exampleWorld [])) = Inr 0"
    by (simp add: dbCount_def serialise_def and_conditions_def example_defs)
  have n': "fst (dbCount exampleUtil ''User'' (JObj [(''where'', JObj [(''id'', JNum 1)])])
             (exampleWorld [])) = Inr 1"
    by (simp add: dbCount_def serialise_def example_defs)
  have k': "fst (dbCount exampleUtil ''User''
             (JObj [(''where'', and_conditions [JObj [(''id'', JNum 1)],
                                                JObj [(''banned'', JBool False)]])])
             (exampleWorld [])) = Inr 1"
    by (simp add: dbCount_def serialise_def and_conditions_def example_defs)
  show ?thesis
    using checkPolicyForFilter_count_comparison [OF g n k]
          checkPolicyForFilter_count_comparison [OF g n' k'] g n k n' k'
    by simp
qed

text \<open>
  C10. A result row without an identifier is not checked at all: post-processing returns
  at once, raises nothing and issues no call to the store, whatever its relations hold.
  Within a row, a relation object without an identifier is skipped by the loop over the
  fields.
\<close>

theorem postProcessForRead_without_id:
  "(\<not> truthyJson (member entityData ''id'') \<longrightarrow>
      postProcessForRead pu entityData model args operation w = (Inr (), w))
   \<and> (\<not> truthyJson (member (member entityData field) ''id'') \<longrightarrow>
      postProcessFields pu entityData model injectTarget operation (field # rest) w
        = postProcessFields pu entityData model injectTarget operation rest w)"
  by (simp add: postProcessForRead.simps split: option.splits)

theorem postProcessForRead_without_id_witness:
  "\<not> truthyJson (member (Obj [(''title'', Str ''tea''), (''owner'', bannedOwner)]) ''id'')
   \<and> postProcessForRead exampleUtil (Obj [(''title'', Str ''tea''), (''owner'', bannedOwner)])
        ''Todo'' selectTitleOwnerArgs Read (exampleWorld [])
      = (Inr (), exampleWorld [])
   \<and> \<not> truthyJson (member (member (Obj [(''id'', Num 10), (''owner'', Obj [(''banned'', Bool True)])])
                              ''owner'') ''id'')
   \<and> postProcessFields exampleUtil (Obj [(''id'', Num 10), (''owner'', Obj [(''banned'', Bool True)])])
        ''Todo'' (JObj [(''owner'', JBool True)]) Read [''owner''] (exampleWorld [])
      = (Inr (), exampleWorld [])"
  using postProcessForRead_without_id
          [where entityData = "Obj [(''title'', Str ''tea''), (''owner'', bannedOwner)]"
             and pu = exampleUtil and model = "''Todo''" and args = selectTitleOwnerArgs
             and operation = Read and w = "exampleWorld []"]
        postProcessForRead_without_id
          [where entityData = "Obj [(''id'', Num 10), (''owner'', Obj [(''banned'', Bool True)])]"
             and field = "''owner''" and pu = exampleUtil and model = "''Todo''"
             and injectTarget = "JObj [(''owner'', JBool True)]" and operation = Read
             and rest = "[]" and w = "exampleWorld []"]
  by simp

text \<open>
  C4, the code at the failing inputs. The read guard of the user model rejects the owner
  of the to-do item. A read that selects the title and the owner, and not the identifier
  of the item, returns the item with its owner; so does a read of a list that includes
  its items with their owners. The same owner read through an item that carries its
  identifier raises the policy denial.
\<close>

theorem readWithCheck_unchecked_to_one:
  "fst (readWithCheck 5 exampleUtil ''Todo'' selectTitleOwnerArgs (exampleWorld []))
     = Inr [Obj [(''title'', Str ''tea''), (''owner'', bannedOwner)]]
   \<and> fst (readWithCheck 5 exampleUtil ''List'' includeTodosOwnerArgs (exampleWorld []))
     = Inr [Obj [(''id'', Num 1),
                 (''todos'', Arr [Obj [(''id'', Num 10), (''owner'', bannedOwner)]])]]
   \<and> fst (readWithCheck 5 exampleUtil ''Todo'' includeOwnerArgs (exampleWorld []))
     = Inl (PolicyDenied ''User'' Read (Some (EntitiesFailed 1)))
   \<and> fst (checkPolicyForFilter exampleUtil ''User'' (JObj [(''id'', JNum 2)]) Read
             (exampleWorld []))
     = Inl (PolicyDenied ''User'' Read (Some (EntitiesFailed 1)))"
  by code_simp

text \<open>
  C5, the code at the failing input. The caller asks for the to-do items of a list with
  the nested filter \<open>{ done: true }\<close>; the query sent to the store carries the read
  guard of the related model alone under the nested \<open>where\<close>, and the caller's nested
  filter is gone. When the related model's read guard is the constant true, the nested
  \<open>where\<close> becomes \<open>undefined\<close>.
\<close>

theorem injectNestedReadConditions_drops_nested_filter:
  "issued (snd (readWithCheck 5 exampleUtil ''List'' nestedWhereArgs (exampleWorld [])))
     = [FindManyCall ''List''
          (Obj [(''include'',
                 Obj [(''todos'', Obj [(''where'', Obj [(''done'', Bool False)])])]),
                (''where'', Undefined)])]
   \<and> issued (snd (readWithCheck 5 exampleUtil ''User'' nestedWhereListsArgs (exampleWorld [])))
     = [FindManyCall ''User''
          (Obj [(''include'', Obj [(''lists'', Obj [(''where'', Undefined)])]),
                (''where'', Obj [(''banned'', Bool False)])])]"
  by code_simp

subsection \<open>Writes\<close>































text \<open>
  C2. When the ledger holds create or update obligations, the write and the post-checks
  run inside one transaction: a post-check that raises after the write makes the call fail
  with that error, and whenever the call fails the store is as it was before the write.
\<close>

theorem finishWrite_rolls_back:
  assumes "createdModels ledger \<noteq> [] \<or> updatedModels ledger \<noteq> []"
  shows "(\<forall>result w1 e w2.
            dbWrite writeAction model args w = (Inr result, w1)
            \<and> postChecks pu transactionId ledger w1 = (Inl e, w2)
            \<longrightarrow> finishWrite pu transactionId model args writeAction ledger w
                  = (Inl e, w2\<lparr>store := store w\<rparr>))
       \<and> (\<forall>e. fst (finishWrite pu transactionId model args writeAction ledger w) = Inl e
            \<longrightarrow> store (snd (finishWrite pu transactionId model args writeAction ledger w))
                  = store w)"
proof -
  let ?body = "bind (dbWrite writeAction model args) (\<lambda>result.
           bind (postChecks pu transactionId ledger) (\<lambda>u. ret result))"
  have fw: "finishWrite pu transactionId model args writeAction ledger w = transaction ?body w"
    using assms by (auto simp: finishWrite_def)
  have a: "\<And>result w1 e w2.
            dbWrite writeAction model args w = (Inr result, w1)
            \<Longrightarrow> postChecks pu transactionId ledger w1 = (Inl e, w2)
            \<Longrightarrow> transaction ?body w = (Inl e, w2\<lparr>store := store w\<rparr>)"
    by (simp add: transaction_def bind_def)
  have b: "\<And>e. fst (transaction ?body w) = Inl e \<Longrightarrow> store (snd (transaction ?body w)) = store w"
    by (cases "?body w") (auto simp: transaction_def split: sum.splits)
  show ?thesis unfolding fw using a b by blast
qed

theorem finishWrite_rolls_back_witness:
  "createdModels createTodoLedger \<noteq> []
   \<and> store (snd (dbWrite exampleWriteAction ''Todo'' createTodoArgs (exampleWorld [])))
       = exampleStore
         @ [(''Todo'', Obj [(''id'', Num 11), (''ownerId'', Num 2),
                            (''zenstack_transaction'', Str ''tx1:create'')])]
   \<and> fst (finishWrite exampleUtil ''tx1'' ''Todo'' createTodoArgs exampleWriteAction
             createTodoLedger (exampleWorld []))
       = Inl (PolicyDenied ''Todo'' Create (Some (EntitiesFailed 1)))
   \<and> store (snd (finishWrite exampleUtil ''tx1'' ''Todo'' createTodoArgs exampleWriteAction
                    createTodoLedger (exampleWorld [])))
       = exampleStore"
proof -
  have l: "createdModels createTodoLedger \<noteq> [] \<or> updatedModels createTodoLedger \<noteq> []"
    by (simp add: createTodoLedger_def)
  have w: "store (snd (dbWrite exampleWriteAction ''Todo'' createTodoArgs (exampleWorld [])))
       = exampleStore
         @ [(''Todo'', Obj [(''id'', Num 11), (''ownerId'', Num 2),
                            (''zenstack_transaction'', Str ''tx1:create'')])]"
    by code_simp
  have f: "fst (finishWrite exampleUtil ''tx1'' ''Todo'' createTodoArgs exampleWriteAction
             createTodoLedger (exampleWorld []))
       = Inl (PolicyDenied ''Todo'' Create (Some (EntitiesFailed 1)))"
    by code_simp
  have s: "store (exampleWorld []) = exampleStore" by (simp add: exampleWorld_def)
  show ?thesis
    using finishWrite_rolls_back [OF l, of exampleWriteAction "''Todo''" createTodoArgs
            "exampleWorld []" exampleUtil "''tx1''"] l w f s
    by (simp add: createTodoLedger_def)
qed

subsection \<open>The reversed query\<close>

lemma map_of_update_same: "map_of (AList.update k v kvs) k = Some v"
  by (simp add: update_conv')

lemma assignAt_plug:
  "validAt c r \<Longrightarrow> assignAt c k x r = plug c (setKey k x (getAt c r)) r"
  by (induction c arbitrary: r) (auto simp: setKey_def split: jval.splits option.splits)

lemma validAt_assignAt:
  "validAt c r \<Longrightarrow> validAt (c @ [k]) (assignAt c k (JObj kvs') r)"
  by (induction c arbitrary: r)
     (auto simp: map_of_update_same split: jval.splits option.splits)

lemma getAt_assignAt:
  "validAt c r \<Longrightarrow> getAt (c @ [k]) (assignAt c k v r) = v"
  by (induction c arbitrary: r)
     (auto simp: map_of_update_same split: jval.splits option.splits)

lemma plug_assignAt:
  "validAt c r \<Longrightarrow>
   plug (c @ [k]) X (assignAt c k v r) = plug c (setKey k X (getAt c r)) r"
  by (induction c arbitrary: r)
     (auto simp: map_of_update_same setKey_def split: jval.splits option.splits)

lemma plug_self: "validAt c r \<Longrightarrow> plug c (getAt c r) r = r"
  by (induction c arbitrary: r) (auto simp: update_triv split: jval.splits option.splits)

lemma reversedLoop_extend:
  "validAt c r \<Longrightarrow> linked cf segs \<Longrightarrow>
   reversedLoop h segs (Some r) c cf = Inr (Some (plug c (extend h cf (getAt c r) segs) r))"
proof (induction segs arbitrary: r c cf)
  case Nil
  then show ?case by (simp add: plug_self)
next
  case (Cons seg segs)
  obtain f where cf: "cf = Some f" and bl: "backLink f \<noteq> None" "backLink f \<noteq> Some []"
    using Cons.prems(2) by (auto simp: hasBackLink_def split: option.splits)
  let ?bl = "the (backLink f)"
  let ?r' = "assignAt c ?bl (spread h (snd seg)) r"
  have v': "validAt (c @ [?bl]) ?r'"
    using validAt_assignAt [OF Cons.prems(1)] by (simp add: spread_def)
  have l': "linked (fst seg) segs" using Cons.prems(2) by simp
  have "reversedLoop h (seg # segs) (Some r) c cf
          = reversedLoop h segs (Some ?r') (c @ [?bl]) (fst seg)"
    using cf bl by auto
  also have "\<dots> = Inr (Some (plug (c @ [?bl])
                 (extend h (fst seg) (getAt (c @ [?bl]) ?r') segs) ?r'))"
    using Cons.IH [OF v' l'] .
  also have "getAt (c @ [?bl]) ?r' = spread h (snd seg)"
    using getAt_assignAt [OF Cons.prems(1)] .
  also have "plug (c @ [?bl]) (extend h (fst seg) (spread h (snd seg)) segs) ?r'
        = plug c (setKey ?bl (extend h (fst seg) (spread h (snd seg)) segs) (getAt c r)) r"
    using plug_assignAt [OF Cons.prems(1)] .
  finally show ?case by (simp add: cf backLinkOf_def)
qed


lemma extend_nested:
  "linked (fst seg) segs \<Longrightarrow>
   extend h (fst seg) (spread h (snd seg)) segs = nestedFilter h (seg # segs)"
  by (induction segs arbitrary: seg) (auto simp: setKey_def spread_def)

lemma linked_iff:
  "linked (fst seg) segs = (\<forall>s\<in>set (butlast (seg # segs)). hasBackLink (fst s))"
  by (induction segs arbitrary: seg) auto

lemma fieldsOf_embed:
  "fieldsOf h (embed w) = map (\<lambda>(k, v). (k, embed v)) (objFields w)"
  by (cases w) (simp_all add: fieldsOf_def objFields_def)

lemma map_update_embed:
  "map (\<lambda>(k, v). (k, embed v)) (AList.update k x kvs)
     = AList.update k (embed x) (map (\<lambda>(k, v). (k, embed v)) kvs)"
  by (induction kvs) auto

lemma nestedFilter_embed:
  "nestedFilter h (map embedSegment segs) = embed (nestedJson segs)"
  by (induction segs rule: nestedJson.induct)
     (simp_all add: embedSegment_def spread_def fieldsOf_embed map_update_embed)

lemma update_fresh: "k \<notin> fst ` set kvs \<Longrightarrow> AList.update k v kvs = kvs @ [(k, v)]"
  by (induction kvs) auto

lemma nestedJson_Obj: "\<exists>cs. nestedJson (s # segs) = Obj cs"
  by (cases segs) auto

lemma reversedLoop_unlinked:
  "\<not> linked cf segs \<Longrightarrow> \<exists>m. reversedLoop h segs (Some r) c cf = Inl (UnknownError m)"
proof (induction segs arbitrary: r c cf)
  case Nil
  then show ?case by simp
next
  case (Cons seg segs)
  show ?case
  proof (cases "hasBackLink cf")
    case False
    then show ?thesis
      by (auto simp: hasBackLink_def unknownError_def split: option.splits)
  next
    case True
    then have "\<not> linked (fst seg) segs" using Cons.prems by simp
    from Cons.IH [OF this] True show ?thesis
      by (auto simp: hasBackLink_def split: option.splits)
  qed
qed

lemma satisfies_append:
  "satisfies meta rel model row (kvs @ kvs')
     = (satisfies meta rel model row kvs \<and> satisfies meta rel model row kvs')"
  by (induction kvs) auto

lemma consistent_backLinks:
  "consistent meta rel table root segs \<Longrightarrow> \<forall>s\<in>set (butlast segs). hasBackLink (fst s)"
  by (induction meta rel table root segs rule: consistent.induct)
     (auto simp: hasBackLink_def split: option.splits)

lemma reachable_table:
  "consistent meta rel table root (seg # segs) \<Longrightarrow>
   set (reachable meta rel table root (seg # segs)) \<subseteq> set (table (segModel root seg))"
proof (induction segs arbitrary: seg)
  case Nil
  then show ?case by (auto simp: segModel_def)
next
  case (Cons up segs)
  from Cons.prems obtain f bl where f: "fst seg = Some f" and bl: "backLink f = Some bl"
    and sub: "\<forall>a\<in>set (table (segModel root up)).
                set (rel (segModel root up) a (fieldName f)) \<subseteq> set (table (fieldType f))"
    and c: "consistent meta rel table root (up # segs)"
    by (auto split: option.splits)
  have "set (reachable meta rel table root (up # segs)) \<subseteq> set (table (segModel root up))"
    using Cons.IH [OF c] .
  then show ?case using f sub by (auto simp: segModel_def)
qed

lemma satisfies_reachable:
  "consistent meta rel table root (seg # segs) \<Longrightarrow> c \<in> set (table (segModel root seg)) \<Longrightarrow>
   satisfies meta rel (segModel root seg) c (objFields (nestedJson (seg # segs)))
     = (c \<in> set (reachable meta rel table root (seg # segs)))"
proof (induction segs arbitrary: seg c)
  case Nil
  then show ?case by (simp add: segModel_def objFields_def)
next
  case (Cons up segs)
  from Cons.prems(1) obtain f bl g where f: "fst seg = Some f" and bl: "backLink f = Some bl"
    and g: "resolveField meta (fieldType f) bl = Some g" "isDataModel g" "\<not> isArray g"
           "fieldType g = segModel root up"
    and keys: "\<forall>k\<in>set (map fst (objFields (snd seg))).
                      case resolveField meta (fieldType f) k of
                        None \<Rightarrow> True
                      | Some g \<Rightarrow> \<not> isDataModel g"
    and bk: "\<forall>c\<in>set (table (fieldType f)).
                      set (rel (fieldType f) c bl) \<subseteq> set (table (segModel root up))
                      \<and> (\<forall>a\<in>set (table (segModel root up)).
                            (c \<in> set (rel (segModel root up) a (fieldName f)))
                            = (a \<in> set (rel (fieldType f) c bl)))"
    and c: "consistent meta rel table root (up # segs)"
    by (auto split: option.splits)
  let ?N = "fieldType f"
  let ?M = "segModel root up"
  have N: "segModel root seg = ?N" using f by (simp add: segModel_def)
  have cN: "c \<in> set (table ?N)" using Cons.prems(2) N by simp
  obtain cs where cs: "nestedJson (up # segs) = Obj cs" using nestedJson_Obj by blast
  have fresh: "bl \<notin> fst ` set (objFields (snd seg))"
    using keys g by (auto split: option.splits)
  have nj: "objFields (nestedJson (seg # up # segs)) = objFields (snd seg) @ [(bl, Obj cs)]"
    using update_fresh [OF fresh] cs f bl by (simp add: objFields_def backLinkOf_def)
  have sub: "set (rel ?N c bl) \<subseteq> set (table ?M)" using bk cN by auto
  have inv: "\<And>a. a \<in> set (table ?M) \<Longrightarrow>
                (c \<in> set (rel ?M a (fieldName f))) = (a \<in> set (rel ?N c bl))"
    using bk cN by auto
  have ih: "\<And>t. t \<in> set (table ?M) \<Longrightarrow>
              satisfies meta rel ?M t cs = (t \<in> set (reachable meta rel table root (up # segs)))"
    using Cons.IH [OF c] cs by (simp add: objFields_def)
  have rt: "set (reachable meta rel table root (up # segs)) \<subseteq> set (table ?M)"
    using reachable_table [OF c] .
  have "satisfies meta rel ?N c (objFields (nestedJson (seg # up # segs)))
      = (satisfies meta rel ?N c (objFields (snd seg))
         \<and> (\<exists>t\<in>set (rel ?N c bl). satisfies meta rel ?M t cs))"
    unfolding nj using g by (simp add: satisfies_append list_ex_iff)
  also have "\<dots> = (satisfies meta rel ?N c (objFields (snd seg))
         \<and> (\<exists>a\<in>set (reachable meta rel table root (up # segs)).
               c \<in> set (rel ?M a (fieldName f))))"
    using ih sub inv rt by blast
  also have "\<dots> = (c \<in> set (reachable meta rel table root (seg # up # segs)))"
    using f by auto
  finally show ?case using N by simp
qed


lemmas link_defs =
  fieldA_def fieldBofC_def authorField_def postsField_def linkMeta_def rowA1_def rowA2_def
  rowB1_def rowB2_def rowC1_def rowC2_def post1_def user2_def linkTable_def links_def
  linkRel_def authorPath_def authorContext_def fieldB_def fieldC_def commentPath_def
  commentContext_def embedSegment_def segModel_def resolveField_def objFields_def

text \<open>
  The fold, and what it identifies. For a non-empty path whose segments below the root
  have a back-link, the reversed query is the fold of the path from the innermost segment
  to the root; when a back-link is missing the call fails with an internal error. When
  the path fits the metadata and the store, in particular when every back-link is a
  single-valued relation field, the rows of the innermost model that satisfy the reversed
  query are exactly the rows reachable from the root under the filters of the path.
\<close>

lemma buildReversedQuery_nested_filter:
  assumes "nestingPath context \<noteq> []"
  shows "((\<forall>s\<in>set (butlast (rev (nestingPath context))). hasBackLink (fst s)) \<longrightarrow>
            buildReversedQuery h context = Inr (nestedFilter h (rev (nestingPath context))))
       \<and> (\<not> (\<forall>s\<in>set (butlast (rev (nestingPath context))). hasBackLink (fst s)) \<longrightarrow>
            (\<exists>m. buildReversedQuery h context = Inl (UnknownError m)))
       \<and> (nestingPath context = map embedSegment path
            \<and> consistent meta rel table root (rev path) \<longrightarrow>
            buildReversedQuery h context = Inr (embed (nestedJson (rev path)))
            \<and> (\<forall>row\<in>set (table (segModel root (last path))).
                  satisfies meta rel (segModel root (last path)) row
                    (objFields (nestedJson (rev path)))
                  = (row \<in> set (reachable meta rel table root (rev path)))))"
proof -
  obtain seg segs where p: "rev (nestingPath context) = seg # segs"
    using assms(1) by (cases "rev (nestingPath context)") auto
  have first: "reversedLoop h (seg # segs) None [] None
          = reversedLoop h segs (Some (spread h (snd seg))) [] (fst seg)"
    by simp
  have a: "(\<forall>s\<in>set (butlast (rev (nestingPath context))). hasBackLink (fst s)) \<Longrightarrow>
            buildReversedQuery h context = Inr (nestedFilter h (rev (nestingPath context)))"
  proof -
    assume "\<forall>s\<in>set (butlast (rev (nestingPath context))). hasBackLink (fst s)"
    then have l: "linked (fst seg) segs" by (simp add: p linked_iff)
    have "reversedLoop h segs (Some (spread h (snd seg))) [] (fst seg)
            = Inr (Some (extend h (fst seg) (spread h (snd seg)) segs))"
      using reversedLoop_extend [of "[]" "spread h (snd seg)" "fst seg" segs h] l
      by (simp add: spread_def)
    then show ?thesis
      using extend_nested [OF l] first by (simp add: buildReversedQuery_def p)
  qed
  have b: "\<not> (\<forall>s\<in>set (butlast (rev (nestingPath context))). hasBackLink (fst s)) \<Longrightarrow>
            (\<exists>m. buildReversedQuery h context = Inl (UnknownError m))"
  proof -
    assume "\<not> (\<forall>s\<in>set (butlast (rev (nestingPath context))). hasBackLink (fst s))"
    then have "\<not> linked (fst seg) segs" by (simp add: p linked_iff)
    from reversedLoop_unlinked [OF this, of h "spread h (snd seg)" "[]"]
    show ?thesis using first by (auto simp: buildReversedQuery_def p)
  qed
  have c: "buildReversedQuery h context = Inr (embed (nestedJson (rev path)))
            \<and> (\<forall>row\<in>set (table (segModel root (last path))).
                  satisfies meta rel (segModel root (last path)) row
                    (objFields (nestedJson (rev path)))
                  = (row \<in> set (reachable meta rel table root (rev path))))"
    if n: "nestingPath context = map embedSegment path"
      and k: "consistent meta rel table root (rev path)"
  proof -
    have ne: "path \<noteq> []" using assms n by auto
    then obtain s ss where r: "rev path = s # ss" by (cases "rev path") auto
    have l: "last path = s" using r ne by (metis last_rev list.sel(1) rev_rev_ident)
    have bl: "\<forall>s\<in>set (butlast (rev (nestingPath context))). hasBackLink (fst s)"
      using consistent_backLinks [OF k] n
      by (auto simp: map_tl [symmetric] embedSegment_def)
    have q: "buildReversedQuery h context = Inr (embed (nestedJson (rev path)))"
      using a [OF bl] nestedFilter_embed [of h "rev path"] n by (simp add: rev_map)
    show ?thesis
      using q satisfies_reachable [of meta rel table root s ss] k r l by simp
  qed
  show ?thesis using a b c by blast
qed

text \<open>
  The example of the source's comment: an update of \<open>A\<close> that reaches \<open>C\<close> through \<open>b\<close> and
  \<open>c\<close> gives the filter \<open>{ b: { a: { id: 'aId' } } }\<close> on \<open>C\<close>, which holds of the one row
  of \<open>C\<close> reached from the row \<open>aId\<close>.
\<close>

lemma buildReversedQuery_nested_filter_example:
  "nestingPath commentContext \<noteq> []
   \<and> nestingPath commentContext = map embedSegment commentPath
   \<and> consistent linkMeta linkRel linkTable ''A'' (rev commentPath)
   \<and> buildReversedQuery [] commentContext
       = Inr (JObj [(''b'', JObj [(''a'', JObj [(''id'', JStr ''aId'')])])])
   \<and> reachable linkMeta linkRel linkTable ''A'' (rev commentPath) = [rowC1]
   \<and> satisfies linkMeta linkRel ''C'' rowC1 [(''b'', Obj [(''a'', Obj [(''id'', Str ''aId'')])])]
   \<and> \<not> satisfies linkMeta linkRel ''C'' rowC2 [(''b'', Obj [(''a'', Obj [(''id'', Str ''aId'')])])]"
proof -
  have n: "nestingPath commentContext \<noteq> []"
    by (simp add: commentContext_def commentPath_def)
  have m: "nestingPath commentContext = map embedSegment commentPath"
    by (simp add: commentContext_def)
  have k: "consistent linkMeta linkRel linkTable ''A'' (rev commentPath)"
    by code_simp
  have r: "reachable linkMeta linkRel linkTable ''A'' (rev commentPath) = [rowC1]"
    by code_simp
  have j: "nestedJson (rev commentPath) = Obj [(''b'', Obj [(''a'', Obj [(''id'', Str ''aId'')])])]"
    by (simp add: link_defs backLinkOf_def)
  have t: "segModel ''A'' (last commentPath) = ''C''"
    by (simp add: link_defs)
  have c: "rowC1 \<in> set (linkTable ''C'') \<and> rowC2 \<in> set (linkTable ''C'') \<and> rowC2 \<noteq> rowC1"
    by (simp add: link_defs)
  from buildReversedQuery_nested_filter [OF n, of "[]" commentPath linkMeta linkRel linkTable "''A''"]
  have "buildReversedQuery [] commentContext = Inr (embed (nestedJson (rev commentPath)))
        \<and> (\<forall>row\<in>set (linkTable ''C'').
              satisfies linkMeta linkRel ''C'' row (objFields (nestedJson (rev commentPath)))
              = (row \<in> set [rowC1]))"
    using m k r t by simp
  then show ?thesis using n m k r j c by (simp add: objFields_def)
qed

text \<open>
  C8, the code at the failing input. An update of the post with identifier 1 that updates
  its author is a to-one-nested update; the back-link of \<open>author\<close> is the list-valued
  relation field \<open>posts\<close> of \<open>User\<close>. The fold is built as the claim describes, and the
  reversed query is \<open>{ posts: { id: 1 } }\<close>: the where-clause of the root put directly
  under a list-valued relation field. The author of the post is reachable from the root,
  and the reversed query does not hold of it; the filter that identifies it goes through
  a quantifier, \<open>{ posts: { some: { id: 1 } } }\<close>.
\<close>

theorem buildReversedQuery_list_back_link:
  "isToOneRelation (contextField authorContext)
   \<and> nestingPath authorContext
       = [(None, JObj [(''id'', JNum 1)]), (Some authorField, JUndefined)]
   \<and> buildReversedQuery [] authorContext
       = Inr (JObj [(''posts'', JObj [(''id'', JNum 1)])])
   \<and> linkMeta ''User'' ''posts'' = Some postsField \<and> isArray postsField
   \<and> linkRel ''Post'' post1 ''author'' = [user2]
   \<and> reachable linkMeta linkRel linkTable ''Post'' (rev authorPath) = [user2]
   \<and> \<not> satisfies linkMeta linkRel ''User'' user2 [(''posts'', Obj [(''id'', Num 1)])]
   \<and> satisfies linkMeta linkRel ''User'' user2
         [(''posts'', Obj [(''some'', Obj [(''id'', Num 1)])])]"
  by code_simp

subsection \<open>The frame of a read\<close>

lemma framed_refl: "framed h h"
  by (auto simp: framed_def)

lemma framed_length: "framed h0 h \<Longrightarrow> length h0 \<le> length h"
  by (metis framed_def length_take min.cobounded1 min.commute)

lemma refsGeFields_map_of:
  "refsGeFields n kvs \<Longrightarrow> map_of kvs k = Some v \<Longrightarrow> refsGe n v"
  by (induction kvs) (auto split: if_splits)

lemma refsGeFields_update:
  "refsGeFields n kvs \<Longrightarrow> refsGe n x \<Longrightarrow> refsGeFields n (AList.update k x kvs)"
  by (induction kvs) auto

lemma refsGe_fieldsOf:
  assumes "framed h0 h" "refsGe (length h0) v"
  shows "refsGeFields (length h0) (fieldsOf h v)"
proof (cases v)
  case (JRef a)
  then have a: "length h0 \<le> a" using assms(2) by simp
  show ?thesis
  proof (cases "a < length h")
    case True
    then have "refsGe (length h0) (h ! a)" using assms(1) a by (simp add: framed_def)
    then show ?thesis using JRef True by (cases "h ! a") (simp_all add: fieldsOf_def)
  next
    case False
    then show ?thesis using JRef by (simp add: fieldsOf_def)
  qed
qed (use assms in \<open>simp_all add: fieldsOf_def\<close>)

lemma refsGe_getProp:
  assumes "framed h0 h" "refsGe (length h0) v"
  shows "refsGe (length h0) (getProp h v k)"
  using refsGe_fieldsOf [OF assms] refsGeFields_map_of
  by (auto simp: getProp_def split: option.splits)

lemma framed_update:
  assumes f: "framed h0 h" and a: "length h0 \<le> a" and c: "refsGe (length h0) c"
  shows "framed h0 (h[a := c])"
proof -
  have "take (length h0) (h[a := c]) = h0"
    using f a by (simp add: framed_def)
  moreover have "\<And>b. length h0 \<le> b \<and> b < length (h[a := c]) \<Longrightarrow> refsGe (length h0) (h[a := c] ! b)"
    using f c by (cases "a < length h") (auto simp: framed_def nth_list_update)
  ultimately show ?thesis by (simp add: framed_def)
qed

lemma framed_append:
  assumes f: "framed h0 h" and c: "refsGe (length h0) c"
  shows "framed h0 (h @ [c])"
proof -
  have l: "length h0 \<le> length h" using f by (rule framed_length)
  have "take (length h0) (h @ [c]) = h0"
    using f l by (simp add: framed_def)
  moreover have "\<And>b. length h0 \<le> b \<and> b < length (h @ [c]) \<Longrightarrow> refsGe (length h0) ((h @ [c]) ! b)"
    using f c by (auto simp: framed_def nth_append)
  ultimately show ?thesis by (simp add: framed_def)
qed

lemma framed_setProp:
  assumes f: "framed h0 h" and t: "refsGe (length h0) target" and x: "refsGe (length h0) x"
    and s: "setProp h target k x = Inr h'"
  shows "framed h0 h'"
proof (cases target)
  case (JRef a)
  then have a: "length h0 \<le> a" using t by simp
  show ?thesis
  proof (cases "a < length h")
    case True
    then have cell: "refsGe (length h0) (h ! a)" using f a by (simp add: framed_def)
    show ?thesis
    proof (cases "h ! a")
      case (JObj kvs)
      then have "refsGeFields (length h0) (AList.update k x kvs)"
        using cell x by (simp add: refsGeFields_update)
      then have "framed h0 (h[a := JObj (AList.update k x kvs)])"
        using framed_update [OF f a] by simp
      then show ?thesis using s JRef True JObj by (simp add: setProp_def)
    qed (use s JRef True f in \<open>auto simp: setProp_def\<close>)
  next
    case False
    then show ?thesis using s JRef f by (simp add: setProp_def)
  qed
qed (use s f in \<open>auto simp: setProp_def\<close>)

lemma refsGeList_all: "refsGeList n xs = (\<forall>x\<in>set xs. refsGe n x)"
  by (induction xs) auto

lemma refsGeFields_all: "refsGeFields n kvs = (\<forall>kv\<in>set kvs. refsGe n (snd kv))"
  by (induction kvs) auto

lemma refsGe_embed: "refsGe n (embed j)"
  by (induction j) (auto simp: refsGeList_all refsGeFields_all)

lemma refsGe_and_conditions:
  assumes "refsGeList n cs"
  shows "refsGe n (and_conditions cs)"
proof -
  have all: "\<forall>x\<in>set (filter isObject cs). refsGe n x"
    using assms by (simp add: refsGeList_all)
  have "filter isObject cs \<noteq> [] \<Longrightarrow> refsGe n (hd (filter isObject cs))"
    using all hd_in_set by blast
  moreover have "refsGeList n (filter isObject cs)"
    using all by (simp add: refsGeList_all)
  ultimately show ?thesis
    by (auto simp: and_conditions_def Let_def)
qed

lemma framed_allocTree:
  "framed h0 h \<Longrightarrow> allocTree t h = (v, h') \<Longrightarrow> framed h0 h' \<and> refsGe (length h0) v"
  "framed h0 h \<Longrightarrow> allocList ts h = (vs, h') \<Longrightarrow> framed h0 h' \<and> refsGeList (length h0) vs"
  "framed h0 h \<Longrightarrow> allocFields kts h = (kvs, h') \<Longrightarrow> framed h0 h' \<and> refsGeFields (length h0) kvs"
proof (induction t h and ts h and kts h arbitrary: v h' and vs h' and kvs h'
       rule: allocTree_allocList_allocFields.induct)
  case (6 xs h)
  obtain ys h1 where a: "allocList xs h = (ys, h1)" by (cases "allocList xs h")
  then have f1: "framed h0 h1" and r: "refsGeList (length h0) ys"
    using 6 by auto
  have "framed h0 (h1 @ [JArr ys])" using framed_append [OF f1] r by simp
  moreover have "length h0 \<le> length h1" using f1 by (rule framed_length)
  ultimately show ?case using 6(3) a by auto
next
  case (7 kts h)
  obtain ys h1 where a: "allocFields kts h = (ys, h1)" by (cases "allocFields kts h")
  then have f1: "framed h0 h1" and r: "refsGeFields (length h0) ys"
    using 7 by auto
  have "framed h0 (h1 @ [JObj ys])" using framed_append [OF f1] r by simp
  moreover have "length h0 \<le> length h1" using f1 by (rule framed_length)
  ultimately show ?case using 7(3) a by auto
next
  case (9 x xs h)
  obtain y h1 where a: "allocTree x h = (y, h1)" by (cases "allocTree x h")
  obtain ys h2 where b: "allocList xs h1 = (ys, h2)" by (cases "allocList xs h1")
  have f1: "framed h0 h1 \<and> refsGe (length h0) y" using 9(1) [OF 9(3) a] .
  have f2: "framed h0 h2 \<and> refsGeList (length h0) ys"
    using 9(2) [OF a [symmetric] _ b] f1 by simp
  show ?case using 9(4) a b f1 f2 by auto
next
  case (11 kt kts h)
  obtain y h1 where a: "allocTree (snd kt) h = (y, h1)" by (cases "allocTree (snd kt) h")
  obtain ys h2 where b: "allocFields kts h1 = (ys, h2)" by (cases "allocFields kts h1")
  have f1: "framed h0 h1 \<and> refsGe (length h0) y" using 11(1) [OF 11(3) a] .
  have f2: "framed h0 h2 \<and> refsGeFields (length h0) ys"
    using 11(2) [OF a [symmetric] _ b] f1 by simp
  show ?case using 11(4) a b f1 f2 by auto
qed auto



lemma framed_clone:
  assumes "framed h0 (heap w)" "clone v w = (r, w')"
  shows "framed h0 (heap w') \<and> (\<forall>c. r = Inr c \<longrightarrow> refsGe (length h0) c)"
proof (cases "truthy v")
  case True
  show ?thesis
  proof (cases "deepcopy (heap w) v")
    case None
    then show ?thesis using assms True by (auto simp: clone_def)
  next
    case (Some p)
    obtain c h' where p: "p = (c, h')" by (cases p)
    then obtain t where "allocTree t (heap w) = (c, h')"
      using Some by (auto simp: deepcopy_def split: option.splits)
    then have "framed h0 h' \<and> refsGe (length h0) c"
      using framed_allocTree(1) assms(1) by blast
    then show ?thesis using assms(2) True Some p by (auto simp: clone_def)
  qed
next
  case False
  have "framed h0 (heap w @ [JObj []])"
    using framed_append [OF assms(1)] by simp
  moreover have "length h0 \<le> length (heap w)" using assms(1) by (rule framed_length)
  ultimately show ?thesis using assms(2) False by (auto simp: clone_def)
qed

lemma refsGe_guard:
  "getAuthGuard pu model operation pv = Inr g \<Longrightarrow> refsGe n g"
  by (auto simp: getAuthGuard_def refsGe_embed split: option.splits PolicyProvider.splits)

lemma framed_injectAuthGuard:
  assumes "framed h0 (heap w)" "refsGe (length h0) args"
    "injectAuthGuard pu args model operation w = (r, w')"
  shows "framed h0 (heap w')"
proof (cases "getAuthGuard pu model operation Undefined")
  case (Inl e)
  then show ?thesis using assms by (auto simp: injectAuthGuard_def)
next
  case (Inr g)
  have x: "refsGe (length h0) (and_conditions [getProp (heap w) args ''where'', g])"
    using refsGe_getProp [OF assms(1,2)] refsGe_guard [OF Inr]
    by (intro refsGe_and_conditions) simp
  show ?thesis
    using assms Inr framed_setProp [OF assms(1,2) x]
    by (auto simp: injectAuthGuard_def split: if_splits sum.splits)
qed

lemma framed_injectField:
  assumes f: "framed h0 (heap w)" and t: "refsGe (length h0) injectTarget"
    and i: "injectField pu injectTarget field fieldInfo w = (r, w')"
  shows "framed h0 (heap w')"
proof (cases "isArray fieldInfo")
  case True
  let ?h = "heap w"
  define r1 where "r1 = (if \<not> typeofObject (getProp ?h injectTarget field)
               then setProp (?h @ [JObj []]) injectTarget field (JRef (length ?h))
               else Inr ?h)"
  show ?thesis
  proof (cases r1)
    case (Inl e)
    then show ?thesis using i True f by (auto simp: injectField_def r1_def [symmetric])
  next
    case (Inr h1)
    have f0: "framed h0 (?h @ [JObj []])" using framed_append [OF f] by simp
    have l: "length h0 \<le> length ?h" using f by (rule framed_length)
    have f1: "framed h0 h1"
    proof (cases "typeofObject (getProp ?h injectTarget field)")
      case True
      then show ?thesis using Inr f by (simp add: r1_def)
    next
      case False
      then have "setProp (?h @ [JObj []]) injectTarget field (JRef (length ?h)) = Inr h1"
        using Inr by (simp add: r1_def)
      from framed_setProp [OF f0 t _ this] l show ?thesis by simp
    qed
    show ?thesis
    proof (cases "getAuthGuard pu (fieldType fieldInfo) Read Undefined")
      case (Inl e)
      then show ?thesis
        using i True Inr f1 by (auto simp: injectField_def r1_def [symmetric])
    next
      case g: (Inr guard)
      have tgt: "refsGe (length h0) (getProp h1 injectTarget field)"
        using refsGe_getProp [OF f1 t] .
      have x: "refsGe (length h0) (and_conditions [getProp h1 injectTarget ''where'', guard])"
        using refsGe_getProp [OF f1 t] refsGe_guard [OF g]
        by (intro refsGe_and_conditions) simp
      show ?thesis
        using i True Inr g f1 framed_setProp [OF f1 tgt x]
        by (auto simp: injectField_def r1_def [symmetric] split: sum.splits)
    qed
  qed
next
  case False
  let ?sel = "getProp (heap w) (getProp (heap w) injectTarget field) ''select''"
  have s: "refsGe (length h0) ?sel"
    using refsGe_getProp [OF f refsGe_getProp [OF f t]] .
  show ?thesis
    using i False f framed_setProp [OF f s, of "JBool True" "''id''"]
    by (auto simp: injectField_def Let_def split: if_splits sum.splits)
qed

lemma framed_injectNested:
  "framed h0 (heap w) \<Longrightarrow> refsGe (length h0) args \<Longrightarrow>
   injectNestedReadConditions n pu model args w = (r, w') \<Longrightarrow> framed h0 (heap w')"
  "framed h0 (heap w) \<Longrightarrow> refsGe (length h0) injectTarget \<Longrightarrow>
   injectFields n pu model injectTarget fs w = (r, w') \<Longrightarrow> framed h0 (heap w')"
proof (induction n pu model args w and n pu model injectTarget fs w arbitrary: r w' and r w'
       rule: injectNestedReadConditions_injectFields.induct)
  case (1 pu model args w)
  then show ?case by auto
next
  case (2 n pu model args w)
  let ?t = "coalesce (getProp (heap w) args ''select'') (getProp (heap w) args ''include'')"
  have t: "refsGe (length h0) ?t"
    using refsGe_getProp [OF 2(2,3)] by (simp add: coalesce_def)
  show ?case
  proof (cases "nullish args \<or> \<not> truthy ?t")
    case True
    then show ?thesis using 2(2,4) by (auto simp: Let_def split: if_splits)
  next
    case False
    then have "injectFields n pu model ?t (getModelFields (heap w) ?t) w = (r, w')"
      using 2(4) by (simp add: Let_def)
    from 2(1) [OF _ refl _ 2(2) t this] False show ?thesis by simp
  qed
next
  case (3 n pu model injectTarget w)
  then show ?case by auto
next
  case (4 n pu model injectTarget field rest w)
  show ?case
  proof (cases "resolveField (modelMeta pu) model field")
    case None
    then show ?thesis using 4(1) [OF None 4(5,6)] 4(7) by simp
  next
    case (Some fieldInfo)
    show ?thesis
    proof (cases "isDataModel fieldInfo")
      case False
      then show ?thesis using 4(2) [OF Some _ 4(5,6)] 4(7) Some by simp
    next
      case True
      obtain r1 w1 where i1: "injectField pu injectTarget field fieldInfo w = (r1, w1)"
        by (cases "injectField pu injectTarget field fieldInfo w")
      have f1: "framed h0 (heap w1)" using framed_injectField [OF 4(5,6) i1] .
      show ?thesis
      proof (cases r1)
        case (Inl e)
        then show ?thesis using 4(7) Some True i1 f1 by simp
      next
        case (Inr u)
        obtain r2 w2 where i2: "injectNestedReadConditions n pu (fieldType fieldInfo)
                         (getProp (heap w1) injectTarget field) w1 = (r2, w2)"
          by (cases "injectNestedReadConditions n pu (fieldType fieldInfo)
                         (getProp (heap w1) injectTarget field) w1")
        have f2: "framed h0 (heap w2)"
          using 4(3) [OF Some _ i1 [symmetric] Inr f1 refsGe_getProp [OF f1 4(6)] i2] True
          by simp
        show ?thesis
        proof (cases r2)
          case (Inl e)
          then show ?thesis using 4(7) Some True i1 Inr i2 f2 by simp
        next
          case r2: (Inr u')
          show ?thesis
            using 4(4) [OF Some _ i1 [symmetric] Inr i2 [symmetric] r2 f2 4(6)]
                  4(7) Some True i1 Inr i2 r2
            by simp
        qed
      qed
    qed
  qed
qed


lemma heap_dbCount: "heap (snd (dbCount pu model args w)) = heap w"
  by (simp add: dbCount_def split: option.splits)

lemma heap_dbFindMany: "heap (snd (dbFindMany pu model args w)) = heap w"
  by (simp add: dbFindMany_def split: option.splits)

lemma heap_bind:
  assumes "\<And>w. heap (snd (m w)) = heap w" "\<And>x w. heap (snd (f x w)) = heap w"
  shows "heap (snd (bind m f w)) = heap w"
proof (cases "m w")
  case (Pair r w1)
  then have "heap w1 = heap w" using assms(1) [of w] by simp
  then show ?thesis using Pair assms(2) by (cases r) (simp_all add: bind_def)
qed

lemma heap_checkPolicyForFilter:
  "heap (snd (checkPolicyForFilter pu model fltr operation w)) = heap w"
  unfolding checkPolicyForFilter_def Let_def
  by (intro heap_bind heap_dbCount) (simp_all add: lift_def throw_def ret_def)

lemma heap_postProcess:
  "heap (snd (postProcessForRead pu entityData model args operation w)) = heap w"
  "heap (snd (postProcessFields pu entityData model injectTarget operation fs w)) = heap w"
proof (induction pu entityData model args operation w
         and pu entityData model injectTarget operation fs w
       rule: postProcessForRead_postProcessFields.induct)
  case (1 pu entityData model args operation w)
  then show ?case by (simp add: postProcessForRead.simps Let_def)
next
  case (2 pu entityData model injectTarget operation w)
  then show ?case by simp
next
  case (3 pu entityData model injectTarget operation field rest w)
  show ?case
  proof (cases "resolveField (modelMeta pu) model field")
    case None
    then show ?thesis using 3(1) by simp
  next
    case (Some fieldInfo)
    show ?thesis
    proof (cases "\<not> isDataModel fieldInfo \<or> isArray fieldInfo
             \<or> \<not> truthyJson (member (member entityData field) ''id'')")
      case True
      then show ?thesis using 3(2) [OF Some] Some by auto
    next
      case False
      let ?c = "checkPolicyForFilter pu (fieldType fieldInfo)
                    (JObj [(''id'', embed (member (member entityData field) ''id''))])
                    operation w"
      obtain r1 w1 where c: "?c = (r1, w1)" by (cases ?c)
      have h1: "heap w1 = heap w" using heap_checkPolicyForFilter [of pu _ _ operation w] c
        by (metis snd_conv)
      show ?thesis
      proof (cases r1)
        case (Inl e)
        then show ?thesis using Some False c h1 by simp
      next
        case (Inr u)
        let ?p = "postProcessForRead pu (member entityData field) (fieldType fieldInfo)
                         (getProp (heap w1) injectTarget field) operation w1"
        obtain r2 w2 where p: "?p = (r2, w2)" by (cases ?p)
        have h2: "heap w2 = heap w1"
          using 3(3) [OF Some False c [symmetric] Inr] p by simp
        show ?thesis
        proof (cases r2)
          case (Inl e)
          then show ?thesis using Some False c Inr p h1 h2 by simp
        next
          case r2: (Inr u')
          have "heap (snd (postProcessFields pu entityData model injectTarget operation rest w2))
                 = heap w2"
            using 3(4) [OF Some False c [symmetric] Inr p [symmetric] r2] .
          then show ?thesis using Some False c Inr p r2 h1 h2 by simp
        qed
      qed
    qed
  qed
qed

lemma heap_gather:
  assumes "\<And>x w. heap (snd (f x w)) = heap w"
  shows "heap (snd (gather f xs w)) = heap w"
proof (induction xs arbitrary: w)
  case Nil
  then show ?case by simp
next
  case (Cons x xs)
  obtain r1 w1 where p: "f x w = (r1, w1)" by (cases "f x w")
  then have "heap w1 = heap w" using assms [of x w] by simp
  then show ?case using Cons [of w1] p by (auto split: prod.splits)
qed

lemma heap_postProcessAll:
  "heap (snd (postProcessAll pu items model args operation w)) = heap w"
  using heap_gather [of "\<lambda>item. postProcessForRead pu item model args operation" items w,
          OF heap_postProcess(1)]
  by (auto simp: postProcessAll_def promiseAll_def Let_def split: prod.splits)

text \<open>
  C9. A read leaves every object that existed before the call as it was, whatever the
  call returns: the heap after the call starts with the heap before the call. The read
  works on a deep copy of the caller's argument, and every injection writes to the copy
  or to objects created during the call.
\<close>

theorem readWithCheck_leaves_caller_objects:
  "take (length (heap w)) (heap (snd (readWithCheck fuel pu model args w))) = heap w"
proof -
  let ?h0 = "heap w"
  have goal: "framed ?h0 (heap (snd (readWithCheck fuel pu model args w)))"
  proof -
    obtain r1 w1 where c: "clone args w = (r1, w1)" by (cases "clone args w")
    have f1: "framed ?h0 (heap w1)" and a1: "\<forall>c. r1 = Inr c \<longrightarrow> refsGe (length ?h0) c"
      using framed_clone [OF framed_refl c] by auto
    show ?thesis
    proof (cases r1)
      case (Inl e)
      then show ?thesis using c f1 by (simp add: readWithCheck_def bind_def)
    next
      case (Inr copy)
      then have rc: "refsGe (length ?h0) copy" using a1 by simp
      obtain r2 w2 where i: "injectAuthGuard pu copy model Read w1 = (r2, w2)"
        by (cases "injectAuthGuard pu copy model Read w1")
      have f2: "framed ?h0 (heap w2)" using framed_injectAuthGuard [OF f1 rc i] .
      show ?thesis
      proof (cases r2)
        case (Inl e)
        then show ?thesis using c Inr i f2 by (simp add: readWithCheck_def bind_def)
      next
        case r2: (Inr u)
        obtain r3 w3 where n: "injectNestedReadConditions fuel pu model copy w2 = (r3, w3)"
          by (cases "injectNestedReadConditions fuel pu model copy w2")
        have f3: "framed ?h0 (heap w3)" using framed_injectNested(1) [OF f2 rc n] .
        show ?thesis
        proof (cases r3)
          case (Inl e)
          then show ?thesis using c Inr i r2 n f3 by (simp add: readWithCheck_def bind_def)
        next
          case r3: (Inr u')
          let ?rest = "bind (dbFindMany pu model copy) (\<lambda>result.
                       bind (postProcessAll pu result model copy Read) (\<lambda>u. ret result))"
          have "heap (snd (?rest w3)) = heap w3"
            by (intro heap_bind heap_dbFindMany heap_postProcessAll) (simp add: ret_def)
          then show ?thesis
            using c Inr i r2 n r3 f3 by (simp add: readWithCheck_def bind_def)
        qed
      qed
    qed
  qed
  then show ?thesis by (simp add: framed_def)
qed

lemma readWithCheck_mutates_copy:
  "heap (snd (readWithCheck 5 exampleUtil ''Todo'' (JRef 1) (exampleWorld selectTitleOwner)))
     = selectTitleOwner
       @ [JObj [(''title'', JBool True), (''owner'', JBool True)],
          JObj [(''select'', JRef 2), (''where'', JObj [(''done'', JBool False)])]]"
  by code_simp

end
